theory Spec2Isabelle
  imports Complex_Main
begin

section \<open>The physics engine of the orbital sandbox (js/Physics.js, js/Body.js)\<close>

text \<open>
  JavaScript numbers are modelled as real numbers: the arithmetic is the exact one that the
  floating-point operations approximate.  Every division of the engine is written with
  \<open>/\<close>; where a theorem below speaks of a quotient by the combined mass of two
  bodies, it assumes their masses positive, and the other divisors of the engine (the
  softened distances, the fragment count) are never zero.  \<open>Math.sqrt\<close> is only applied to sums of squares (plus the softening
  constant) inside the stepped simulation, where it is \<^const>\<open>sqrt\<close>; \<open>Math.cbrt\<close>
  is \<open>root 3\<close>; \<open>Math.round\<close> rounds halves upwards.  The values returned by
  successive calls of \<open>Math.random()\<close> are a parameter \<open>rnd\<close>, the \<open>k\<close>-th
  call returning \<open>rnd k\<close>.
\<close>

subsection \<open>Constants\<close>

definition G :: real where "G = 2"
definition SOFTENING :: real where "SOFTENING = 5"
definition SOFTENING_SQ :: real where "SOFTENING_SQ = SOFTENING * SOFTENING"
definition SUBSTEPS :: nat where "SUBSTEPS = 4"
definition TRAIL_MAX_LENGTH :: nat where "TRAIL_MAX_LENGTH = 300"

definition Math_round :: "real \<Rightarrow> int" where
  "Math_round v = \<lfloor>v + 1 / 2\<rfloor>"

definition Math_cbrt :: "real \<Rightarrow> real" where
  "Math_cbrt v = root 3 v"

subsection \<open>Data model (js/Body.js)\<close>

text \<open>The fields \<open>x\<close>, \<open>y\<close> of a position object are called \<open>pos_x\<close>, \<open>pos_y\<close>.\<close>

record position =
  pos_x :: real
  pos_y :: real

record velocity =
  vx :: real
  vy :: real

record acceleration =
  ax :: real
  ay :: real

record body =
  body_id :: nat
  position :: position
  velocity :: velocity
  mass :: real
  radius :: real
  color :: string
  body_type :: string
  trail :: "position list"
  acceleration :: acceleration
  escaped :: bool
  merged :: bool

record star =
  star_position :: position
  star_mass :: real
  star_radius :: real
  star_color :: string

text \<open>The fragment descriptors pushed by \<open>_explode\<close>.\<close>

record fragment =
  frag_x :: real
  frag_y :: real
  frag_vx :: real
  frag_vy :: real
  frag_mass :: real
  frag_radius :: real
  frag_color :: string
  frag_type :: string

text \<open>
  The part of the heap a call of the engine can reach: the body array, the star
  (\<open>None\<close> is \<open>null\<close>, the freeform mode), the \<open>fragments\<close> array of the running
  \<open>step\<close> call, and the number of \<open>Math.random()\<close> calls made so far.  The bodies of
  the array are distinct objects, as the game creates them.
\<close>

record sim =
  bodies :: "body list"
  star :: "star option"
  fragments :: "fragment list"
  draws :: nat

subsection \<open>\<open>_computeAccelerations\<close>\<close>

definition reset_acc :: "body \<Rightarrow> body" where
  "reset_acc b = b\<lparr>acceleration := \<lparr>ax = 0, ay = 0\<rparr>\<rparr>"

definition star_pull :: "star \<Rightarrow> body \<Rightarrow> body" where
  "star_pull st b =
    (let dx = pos_x (star_position st) - pos_x (position b);
         dy = pos_y (star_position st) - pos_y (position b);
         distSq = dx * dx + dy * dy + SOFTENING_SQ;
         dist = sqrt distSq;
         forceMag = G * star_mass st / distSq
     in b\<lparr>acceleration :=
            \<lparr>ax = ax (acceleration b) + forceMag * dx / dist,
             ay = ay (acceleration b) + forceMag * dy / dist\<rparr>\<rparr>)"

text \<open>The body of the inner loop of the pairwise pass, for the indices \<open>i < j\<close>.\<close>

definition pair_force :: "nat \<Rightarrow> nat \<Rightarrow> body list \<Rightarrow> body list" where
  "pair_force i j bs =
    (let a = bs ! i; b = bs ! j;
         dx = pos_x (position b) - pos_x (position a);
         dy = pos_y (position b) - pos_y (position a);
         distSq = dx * dx + dy * dy + SOFTENING_SQ;
         dist = sqrt distSq;
         forceMag = G / distSq;
         fx = forceMag * dx / dist;
         fy = forceMag * dy / dist;
         a' = a\<lparr>acceleration :=
                 \<lparr>ax = ax (acceleration a) + mass b * fx,
                  ay = ay (acceleration a) + mass b * fy\<rparr>\<rparr>;
         b' = b\<lparr>acceleration :=
                 \<lparr>ax = ax (acceleration b) - mass a * fx,
                  ay = ay (acceleration b) - mass a * fy\<rparr>\<rparr>
     in bs[i := a', j := b'])"

definition pair_forces :: "body list \<Rightarrow> body list" where
  "pair_forces bs =
     fold (\<lambda>i cur. fold (pair_force i) [Suc i..<length cur] cur) [0..<length bs] bs"

definition computeAccelerations :: "sim \<Rightarrow> sim" where
  "computeAccelerations h =
    (let bs0 = map reset_acc (bodies h);
         bs1 = (case star h of None \<Rightarrow> bs0 | Some st \<Rightarrow> map (star_pull st) bs0)
     in h\<lparr>bodies := pair_forces bs1\<rparr>)"

subsection \<open>\<open>_explode\<close>\<close>

definition fragment_count :: "body \<Rightarrow> body \<Rightarrow> nat" where
  "fragment_count a b = nat (max 3 (min 8 (Math_round ((radius a + radius b) / 3))))"

definition fragRadius :: "body \<Rightarrow> body \<Rightarrow> real" where
  "fragRadius a b =
     max 2 (Math_cbrt ((radius a ^ 3 + radius b ^ 3) / real (fragment_count a b)))"

definition fragMass :: "body \<Rightarrow> body \<Rightarrow> real" where
  "fragMass a b =
     max 1 (real_of_int (Math_round ((mass a + mass b) / real (fragment_count a b))))"

definition kickSpeed :: "body \<Rightarrow> body \<Rightarrow> real" where
  "kickSpeed a b =
    (let relVx = vx (velocity a) - vx (velocity b);
         relVy = vy (velocity a) - vy (velocity b)
     in max 8 (sqrt (relVx * relVx + relVy * relVy) * 0.45))"

text \<open>The \<open>i\<close>-th iteration draws the angle jitter first and the kick factor second.\<close>

definition frag_angle :: "(nat \<Rightarrow> real) \<Rightarrow> nat \<Rightarrow> nat \<Rightarrow> nat \<Rightarrow> real" where
  "frag_angle rnd k n i =
     (real i / real n) * 2 * pi + (rnd (k + 2 * i) - 0.5) * (pi / real n)"

definition frag_kick :: "(nat \<Rightarrow> real) \<Rightarrow> nat \<Rightarrow> body \<Rightarrow> body \<Rightarrow> nat \<Rightarrow> real" where
  "frag_kick rnd k a b i = kickSpeed a b * (0.7 + rnd (k + 2 * i + 1) * 0.6)"

definition make_fragment :: "(nat \<Rightarrow> real) \<Rightarrow> nat \<Rightarrow> body \<Rightarrow> body \<Rightarrow> nat \<Rightarrow> fragment" where
  "make_fragment rnd k a b i =
    (let totalMass = mass a + mass b;
         cx = (pos_x (position a) * mass a + pos_x (position b) * mass b) / totalMass;
         cy = (pos_y (position a) * mass a + pos_y (position b) * mass b) / totalMass;
         cvx = (vx (velocity a) * mass a + vx (velocity b) * mass b) / totalMass;
         cvy = (vy (velocity a) * mass a + vy (velocity b) * mass b) / totalMass;
         spawnR = fragRadius a b * 2 + 3;
         angle = frag_angle rnd k (fragment_count a b) i;
         kick = frag_kick rnd k a b i
     in \<lparr>frag_x = cx + cos angle * spawnR,
         frag_y = cy + sin angle * spawnR,
         frag_vx = cvx + cos angle * kick,
         frag_vy = cvy + sin angle * kick,
         frag_mass = fragMass a b,
         frag_radius = fragRadius a b,
         frag_color = (if mass a \<ge> mass b then color a else color b),
         frag_type = ''planet''\<rparr>)"

text \<open>The fragments one call pushes, when \<open>k\<close> random numbers were drawn before it.\<close>

definition explode_fragments :: "(nat \<Rightarrow> real) \<Rightarrow> nat \<Rightarrow> body \<Rightarrow> body \<Rightarrow> fragment list" where
  "explode_fragments rnd k a b = map (make_fragment rnd k a b) [0..<fragment_count a b]"

definition explode :: "(nat \<Rightarrow> real) \<Rightarrow> body \<Rightarrow> body \<Rightarrow> sim \<Rightarrow> sim" where
  "explode rnd a b h =
     h\<lparr>fragments := fragments h @ explode_fragments rnd (draws h) a b,
       draws := draws h + 2 * fragment_count a b\<rparr>"

subsection \<open>\<open>_handleCollisions\<close>\<close>

definition absorb :: "star \<Rightarrow> body \<Rightarrow> body" where
  "absorb st b =
    (let dx = pos_x (position b) - pos_x (star_position st);
         dy = pos_y (position b) - pos_y (star_position st);
         dist = sqrt (dx * dx + dy * dy)
     in if dist < star_radius st + radius b * 0.5 then b\<lparr>merged := True\<rparr> else b)"

definition overlapping :: "body \<Rightarrow> body \<Rightarrow> bool" where
  "overlapping a bdy =
    (let dx = pos_x (position bdy) - pos_x (position a);
         dy = pos_y (position bdy) - pos_y (position a);
         dist = sqrt (dx * dx + dy * dy)
     in dist < radius a + radius bdy)"

definition merge_into :: "body \<Rightarrow> body \<Rightarrow> body" where
  "merge_into a bdy =
    (let totalMass = mass a + mass bdy
     in a\<lparr>position :=
            \<lparr>pos_x = (pos_x (position a) * mass a + pos_x (position bdy) * mass bdy) / totalMass,
             pos_y = (pos_y (position a) * mass a + pos_y (position bdy) * mass bdy) / totalMass\<rparr>,
          velocity :=
            \<lparr>vx = (vx (velocity a) * mass a + vx (velocity bdy) * mass bdy) / totalMass,
             vy = (vy (velocity a) * mass a + vy (velocity bdy) * mass bdy) / totalMass\<rparr>,
          radius := Math_cbrt (radius a ^ 3 + radius bdy ^ 3),
          mass := totalMass\<rparr>)"

text \<open>
  The body of the inner loop for the indices \<open>i < j\<close>.  \<open>expl\<close> tells whether the
  \<open>fragments\<close> argument is the array (\<open>True\<close>) or \<open>null\<close> (\<open>False\<close>).
\<close>

definition collide_pair :: "(nat \<Rightarrow> real) \<Rightarrow> bool \<Rightarrow> nat \<Rightarrow> nat \<Rightarrow> sim \<Rightarrow> sim" where
  "collide_pair rnd expl i j h =
    (if merged (bodies h ! j) then h
     else
       let a = bodies h ! i; bdy = bodies h ! j
       in if overlapping a bdy then
            (if expl then
               (let h' = explode rnd a bdy h
                in h'\<lparr>bodies := (bodies h')[i := a\<lparr>merged := True\<rparr>, j := bdy\<lparr>merged := True\<rparr>]\<rparr>)
             else
               h\<lparr>bodies := (bodies h)[i := merge_into a bdy, j := bdy\<lparr>merged := True\<rparr>]\<rparr>)
          else h)"

definition collide_row :: "(nat \<Rightarrow> real) \<Rightarrow> bool \<Rightarrow> nat \<Rightarrow> sim \<Rightarrow> sim" where
  "collide_row rnd expl i h =
    (if merged (bodies h ! i) then h
     else fold (collide_pair rnd expl i) [Suc i..<length (bodies h)] h)"

definition absorb_all :: "sim \<Rightarrow> sim" where
  "absorb_all h =
    (case star h of None \<Rightarrow> h | Some st \<Rightarrow> h\<lparr>bodies := map (absorb st) (bodies h)\<rparr>)"

definition handleCollisions :: "(nat \<Rightarrow> real) \<Rightarrow> bool \<Rightarrow> sim \<Rightarrow> sim" where
  "handleCollisions rnd expl h =
    (let h1 = absorb_all h
     in fold (collide_row rnd expl) [0..<length (bodies h1)] h1)"

subsection \<open>\<open>step\<close>\<close>

definition kick :: "real \<Rightarrow> body \<Rightarrow> body" where
  "kick dt b =
     b\<lparr>velocity := \<lparr>vx = vx (velocity b) + 0.5 * ax (acceleration b) * dt,
                     vy = vy (velocity b) + 0.5 * ay (acceleration b) * dt\<rparr>\<rparr>"

definition drift :: "real \<Rightarrow> body \<Rightarrow> body" where
  "drift dt b =
     b\<lparr>position := \<lparr>pos_x = pos_x (position b) + vx (velocity b) * dt,
                     pos_y = pos_y (position b) + vy (velocity b) * dt\<rparr>\<rparr>"

definition kick_drift :: "real \<Rightarrow> body \<Rightarrow> body" where
  "kick_drift dt b = drift dt (kick dt b)"

definition trail_push :: "position \<Rightarrow> position list \<Rightarrow> position list" where
  "trail_push p t = (let t' = t @ [p] in if length t' > TRAIL_MAX_LENGTH then tl t' else t')"

definition record_trail :: "body \<Rightarrow> body" where
  "record_trail b =
     b\<lparr>trail := trail_push \<lparr>pos_x = pos_x (position b), pos_y = pos_y (position b)\<rparr> (trail b)\<rparr>"

definition substep :: "(nat \<Rightarrow> real) \<Rightarrow> bool \<Rightarrow> real \<Rightarrow> sim \<Rightarrow> sim" where
  "substep rnd explosions dt h =
    (let h1 = computeAccelerations h;
         h2 = h1\<lparr>bodies := map (kick_drift dt) (bodies h1)\<rparr>;
         h3 = computeAccelerations h2;
         h4 = h3\<lparr>bodies := map (kick dt) (bodies h3)\<rparr>;
         h5 = h4\<lparr>bodies := map record_trail (bodies h4)\<rparr>
     in handleCollisions rnd explosions h5)"

text \<open>
  \<open>step\<close> starts with a fresh \<open>fragments\<close> array, which is what it returns in the end;
  \<open>explosions\<close> is the truth value of \<open>options.explosions\<close>.
\<close>

definition step :: "(nat \<Rightarrow> real) \<Rightarrow> real \<Rightarrow> bool \<Rightarrow> sim \<Rightarrow> sim" where
  "step rnd frameTimeSec explosions h =
    (let dt = frameTimeSec / real SUBSTEPS
     in fold (\<lambda>s. substep rnd explosions dt) [0..<SUBSTEPS] (h\<lparr>fragments := []\<rparr>))"

subsection \<open>\<open>circularOrbitVelocity\<close>\<close>

text \<open>
  The query divides by, and takes the square root of, caller-supplied quantities, so its
  model records both anomalies: a division with a zero divisor (the code would continue with
  an infinity or \<open>NaN\<close>) and the square root of a negative number (\<open>NaN\<close>).
\<close>

datatype anomaly = DivisionByZero | NegativeSqrt

definition checked_div :: "real \<Rightarrow> real \<Rightarrow> anomaly + real" where
  "checked_div a b = (if b = 0 then Inl DivisionByZero else Inr (a / b))"

definition Math_sqrt :: "real \<Rightarrow> anomaly + real" where
  "Math_sqrt v = (if v < 0 then Inl NegativeSqrt else Inr (sqrt v))"

definition circularOrbitVelocity :: "real \<Rightarrow> real \<Rightarrow> position \<Rightarrow> real \<Rightarrow> anomaly + real" where
  "circularOrbitVelocity px py starPos starMass =
    (let dx = px - pos_x starPos;
         dy = py - pos_y starPos;
         r = sqrt (dx * dx + dy * dy)
     in if r < 1 then Inr 0
        else (case checked_div (G * starMass) r of
                Inl e \<Rightarrow> Inl e
              | Inr q \<Rightarrow> Math_sqrt q))"

subsection \<open>The constructors of js/Body.js\<close>

text \<open>
  \<open>new CelestialBody({x, y, vx, vy, mass, radius, color, type})\<close>; the identifier that
  the constructor takes from its counter is the first argument.
\<close>

definition CelestialBody ::
  "nat \<Rightarrow> real \<Rightarrow> real \<Rightarrow> real \<Rightarrow> real \<Rightarrow> real \<Rightarrow> real \<Rightarrow> string \<Rightarrow> string \<Rightarrow> body" where
  "CelestialBody n px py pvx pvy m r c t =
     \<lparr>body_id = n,
      position = \<lparr>pos_x = px, pos_y = py\<rparr>,
      velocity = \<lparr>vx = pvx, vy = pvy\<rparr>,
      mass = m, radius = r, color = c, body_type = t,
      trail = [],
      acceleration = \<lparr>ax = 0, ay = 0\<rparr>,
      escaped = False, merged = False\<rparr>"

definition Star :: "real \<Rightarrow> real \<Rightarrow> star" where
  "Star px py =
     \<lparr>star_position = \<lparr>pos_x = px, pos_y = py\<rparr>,
      star_mass = 1000000, star_radius = 30, star_color = ''#fff7aa''\<rparr>"

text \<open>The heap handed to a call: the body array and the star, nothing drawn yet.\<close>

definition scene :: "body list \<Rightarrow> star option \<Rightarrow> sim" where
  "scene bs st = \<lparr>bodies = bs, star = st, fragments = [], draws = 0\<rparr>"

text \<open>A source of random numbers that always returns one half (no jitter).\<close>

definition no_jitter :: "nat \<Rightarrow> real" where
  "no_jitter k = 1 / 2"

text \<open>Two default planets one pixel apart, and two small bodies of mass 1 and radius 2.\<close>

definition planet_a :: body where
  "planet_a = CelestialBody 1 0 0 0 0 100 8 ''#4fc3f7'' ''planet''"

definition planet_b :: body where
  "planet_b = CelestialBody 2 1 0 0 0 100 8 ''#4fc3f7'' ''planet''"

definition shard_a :: body where
  "shard_a = CelestialBody 1 0 0 0 0 1 2 ''#4fc3f7'' ''planet''"

definition shard_b :: body where
  "shard_b = CelestialBody 2 1 0 0 0 1 2 ''#4fc3f7'' ''planet''"

text \<open>Two bodies in motion: momentum \<open>(300, 0)\<close> and \<open>(-300, 1200)\<close>.\<close>

definition mover_a :: body where
  "mover_a = CelestialBody 1 0 0 3 0 100 8 ''#ff0000'' ''planet''"

definition mover_b :: body where
  "mover_b = CelestialBody 2 1 0 (- 1) 4 300 8 ''#0000ff'' ''planet''"

text \<open>A third default planet, one pixel from \<open>planet_a\<close> on the other axis.\<close>

definition planet_c :: body where
  "planet_c = CelestialBody 3 0 1 0 0 100 8 ''#4fc3f7'' ''planet''"

text \<open>A default planet 33 pixels from a star at the origin: inside \<open>30 + 0.5 * 8\<close>.\<close>

definition sun_grazer :: body where
  "sun_grazer = CelestialBody 1 33 0 0 0 100 8 ''#4fc3f7'' ''planet''"

subsection \<open>The force law in closed form\<close>

text \<open>
  What one body receives from another, per unit of the other's mass: the softened
  inverse-square magnitude \<open>G / (d\<^sup>2 + \<epsilon>\<^sup>2)\<close> times the displacement towards the other
  body divided by the softened distance \<open>sqrt (d\<^sup>2 + \<epsilon>\<^sup>2)\<close>.
\<close>

definition pull_x :: "position \<Rightarrow> position \<Rightarrow> real" where
  "pull_x p q =
    (let dx = pos_x q - pos_x p; dy = pos_y q - pos_y p;
         distSq = dx * dx + dy * dy + SOFTENING_SQ
     in G / distSq * dx / sqrt distSq)"

definition pull_y :: "position \<Rightarrow> position \<Rightarrow> real" where
  "pull_y p q =
    (let dx = pos_x q - pos_x p; dy = pos_y q - pos_y p;
         distSq = dx * dx + dy * dy + SOFTENING_SQ
     in G / distSq * dy / sqrt distSq)"

text \<open>
  The net acceleration of the body with index \<open>k\<close>, following the words of the
  specification: the pull of the star, when there is one, scaled by the star's mass, plus
  the pull of every other body scaled by that body's mass.
\<close>

definition star_term :: "(position \<Rightarrow> position \<Rightarrow> real) \<Rightarrow> star option \<Rightarrow> body \<Rightarrow> real" where
  "star_term pull st b =
     (case st of None \<Rightarrow> 0 | Some s \<Rightarrow> star_mass s * pull (position b) (star_position s))"

definition others_term :: "(position \<Rightarrow> position \<Rightarrow> real) \<Rightarrow> body list \<Rightarrow> nat \<Rightarrow> real" where
  "others_term pull bs k =
     (\<Sum>j \<in> {..<length bs} - {k}. mass (bs ! j) * pull (position (bs ! k)) (position (bs ! j)))"

definition net_acceleration :: "body list \<Rightarrow> star option \<Rightarrow> nat \<Rightarrow> acceleration" where
  "net_acceleration bs st k =
     \<lparr>ax = star_term pull_x st (bs ! k) + others_term pull_x bs k,
      ay = star_term pull_y st (bs ! k) + others_term pull_y bs k\<rparr>"

text \<open>The body array with the accelerations replaced by given ones.\<close>

definition with_acc :: "body list \<Rightarrow> (nat \<Rightarrow> real) \<Rightarrow> (nat \<Rightarrow> real) \<Rightarrow> body list" where
  "with_acc bs fx fy =
     map (\<lambda>k. (bs ! k)\<lparr>acceleration := \<lparr>ax = fx k, ay = fy k\<rparr>\<rparr>) [0..<length bs]"

text \<open>One pair's contribution to one component of all accelerations.\<close>

definition acc_pair ::
  "(nat \<Rightarrow> real) \<Rightarrow> (nat \<Rightarrow> nat \<Rightarrow> real) \<Rightarrow> nat \<Rightarrow> nat \<Rightarrow> (nat \<Rightarrow> real) \<Rightarrow> nat \<Rightarrow> real" where
  "acc_pair w P i j f = f(i := f i + w j * P i j, j := f j - w i * P i j)"

text \<open>A default planet 12 pixels to the right of a star placed at the origin.\<close>

definition probe :: body where
  "probe = CelestialBody 1 12 0 0 0 100 8 ''#4fc3f7'' ''planet''"

subsection \<open>The phases of a substep, in the words of the specification\<close>

definition half_kick :: "real \<Rightarrow> sim \<Rightarrow> sim" where
  "half_kick \<delta> h = h\<lparr>bodies := map (kick \<delta>) (bodies h)\<rparr>"

definition drift_positions :: "real \<Rightarrow> sim \<Rightarrow> sim" where
  "drift_positions \<delta> h = h\<lparr>bodies := map (drift \<delta>) (bodies h)\<rparr>"

definition record_trails :: "sim \<Rightarrow> sim" where
  "record_trails h = h\<lparr>bodies := map record_trail (bodies h)\<rparr>"

text \<open>
  Accelerations, half kick, drift, accelerations again, second half kick, the trail
  entry, and one collision pass.
\<close>

definition spec_substep :: "(nat \<Rightarrow> real) \<Rightarrow> bool \<Rightarrow> real \<Rightarrow> sim \<Rightarrow> sim" where
  "spec_substep rnd explosions \<delta> h =
     handleCollisions rnd explosions
       (record_trails
         (half_kick \<delta>
           (computeAccelerations
             (drift_positions \<delta>
               (half_kick \<delta>
                 (computeAccelerations h))))))"

definition spec_step :: "(nat \<Rightarrow> real) \<Rightarrow> real \<Rightarrow> bool \<Rightarrow> sim \<Rightarrow> sim" where
  "spec_step rnd frameTimeSec explosions h =
     (spec_substep rnd explosions (frameTimeSec / 4) ^^ 4) (h\<lparr>fragments := []\<rparr>)"

subsection \<open>Successive frames\<close>

text \<open>
  One call of \<open>step\<close> per frame on the same body array, each frame with its own time
  slice and collision mode.
\<close>

fun run_steps :: "(nat \<Rightarrow> real) \<Rightarrow> (real \<times> bool) list \<Rightarrow> sim \<Rightarrow> sim" where
  "run_steps rnd [] h = h"
| "run_steps rnd ((frameTimeSec, explosions) # frames) h =
     run_steps rnd frames (step rnd frameTimeSec explosions h)"

text \<open>No two bodies of the array overlap.\<close>

definition no_overlap :: "body list \<Rightarrow> bool" where
  "no_overlap bs = (\<forall>j < length bs. \<forall>i < j. \<not> overlapping (bs ! i) (bs ! j))"

subsection \<open>Relations between a body before and after\<close>

text \<open>The trail grew by \<open>n\<close> entries, up to the cap.\<close>

definition trail_grows :: "nat \<Rightarrow> body \<Rightarrow> body \<Rightarrow> bool" where
  "trail_grows n b b' =
     (length (trail b) \<le> TRAIL_MAX_LENGTH \<longrightarrow>
        length (trail b') = min (length (trail b) + n) TRAIL_MAX_LENGTH)"

text \<open>
  The body did not move: same position, velocity and radius, and \<open>n\<close> copies of its
  position pushed on its trail.
\<close>

definition frozen :: "nat \<Rightarrow> body \<Rightarrow> body \<Rightarrow> bool" where
  "frozen n b b' =
     (position b' = position b \<and> velocity b' = velocity b \<and> radius b' = radius b
      \<and> trail b' = (trail_push (position b) ^^ n) (trail b))"

text \<open>
  Two resting bodies of radius 6, which explode into four fragments, and a source of
  random numbers whose second draw (the kick factor of the first fragment) is 0 and whose
  other draws are one half.
\<close>

definition rock_a :: body where
  "rock_a = CelestialBody 1 0 0 0 0 100 6 ''#4fc3f7'' ''planet''"

definition rock_b :: body where
  "rock_b = CelestialBody 2 1 0 0 0 100 6 ''#4fc3f7'' ''planet''"

definition uneven :: "nat \<Rightarrow> real" where
  "uneven k = (if k = 1 then 0 else 1 / 2)"

subsection \<open>The trail entry of a substep\<close>

text \<open>
  The position that body \<open>k\<close> has after the first half kick and the drift of a substep of
  size \<open>\<delta>\<close> that starts in \<open>h\<close>, in closed form: this is the position the second half
  of the substep leaves in place and the trail records.
\<close>

definition drifted :: "real \<Rightarrow> sim \<Rightarrow> nat \<Rightarrow> position" where
  "drifted \<delta> h k =
    (let b = bodies h ! k; a = net_acceleration (bodies h) (star h) k
     in \<lparr>pos_x = pos_x (position b) + (vx (velocity b) + 0.5 * ax a * \<delta>) * \<delta>,
         pos_y = pos_y (position b) + (vy (velocity b) + 0.5 * ay a * \<delta>) * \<delta>\<rparr>)"

text \<open>A body in motion far from \<open>mover_a\<close>.\<close>

definition far_b :: body where
  "far_b = CelestialBody 2 30 40 (- 1) 4 300 8 ''#0000ff'' ''planet''"

text \<open>\<open>mover_a\<close> with a full trail of 300 entries at the origin.\<close>

definition veteran :: body where
  "veteran = mover_a\<lparr>trail := replicate 300 \<lparr>pos_x = 0, pos_y = 0\<rparr>\<rparr>"

section \<open>Properties\<close>

subsection \<open>What a collision pass leaves alone\<close>

lemma list_all2_update2:
  assumes "\<And>b. R b b" "i < length xs \<Longrightarrow> R (xs ! i) u" "j < length xs \<Longrightarrow> R (xs ! j) v"
  shows "list_all2 R xs (xs[i := u, j := v])"
proof -
  have "R (xs ! k) (xs[i := u, j := v] ! k)" if "k < length xs" for k
  proof (cases "k = j")
    case True
    then show ?thesis using that assms(3) by simp
  next
    case False
    then show ?thesis using that assms(1,2) by (cases "k = i") simp_all
  qed
  then show ?thesis by (simp add: list_all2_conv_all_nth)
qed

lemma collide_pair_frame:
  "star (collide_pair rnd expl i j h) = star h"
  "length (bodies (collide_pair rnd expl i j h)) = length (bodies h)"
  by (simp_all add: collide_pair_def explode_def Let_def)

lemma collide_pair_rel:
  assumes refl: "\<And>b. R b b"
    and flag: "\<And>b. R b (b\<lparr>merged := True\<rparr>)"
    and mrg: "\<And>a b. \<not> expl \<Longrightarrow> R a (merge_into a b)"
  shows "list_all2 R (bodies h) (bodies (collide_pair rnd expl i j h))"
proof -
  let ?a = "bodies h ! i" and ?b = "bodies h ! j"
  have id: "list_all2 R (bodies h) (bodies h)"
    by (simp add: list_all2_refl refl)
  have ex: "list_all2 R (bodies h) ((bodies h)[i := ?a\<lparr>merged := True\<rparr>, j := ?b\<lparr>merged := True\<rparr>])"
    by (rule list_all2_update2) (simp_all add: refl flag)
  have mg: "list_all2 R (bodies h) ((bodies h)[i := merge_into ?a ?b, j := ?b\<lparr>merged := True\<rparr>])"
    if "\<not> expl"
    by (rule list_all2_update2) (simp_all add: refl flag mrg that)
  show ?thesis
    using id ex mg by (simp add: collide_pair_def explode_def Let_def)
qed

lemma fold_rel:
  assumes step: "\<And>x h. list_all2 R (bodies h) (bodies (f x h))"
    and refl: "\<And>b. R b b"
    and trans: "\<And>a b c. R a b \<Longrightarrow> R b c \<Longrightarrow> R a c"
  shows "list_all2 R (bodies h) (bodies (fold f xs h))"
proof (induction xs arbitrary: h)
  case Nil
  show ?case by (simp add: list_all2_refl refl)
next
  case (Cons x xs)
  have 1: "list_all2 R (bodies h) (bodies (f x h))" by (rule step)
  have 2: "list_all2 R (bodies (f x h)) (bodies (fold f xs (f x h)))" by (rule Cons.IH)
  have "list_all2 R (bodies h) (bodies (fold f xs (f x h)))"
    using trans 1 2 by (rule list_all2_trans [where ?P1.0 = R and ?P2.0 = R])
  then show ?case by simp
qed

lemma collide_row_rel:
  assumes refl: "\<And>b. R b b"
    and flag: "\<And>b. R b (b\<lparr>merged := True\<rparr>)"
    and mrg: "\<And>a b. \<not> expl \<Longrightarrow> R a (merge_into a b)"
    and trans: "\<And>a b c. R a b \<Longrightarrow> R b c \<Longrightarrow> R a c"
  shows "list_all2 R (bodies h) (bodies (collide_row rnd expl i h))"
proof -
  have "list_all2 R (bodies h) (bodies (fold (collide_pair rnd expl i) js h))" for js
  proof (rule fold_rel [where R = R])
    show "list_all2 R (bodies g) (bodies (collide_pair rnd expl i x g))" for x g
      using refl flag mrg by (rule collide_pair_rel [where R = R])
  qed (use refl trans in blast)+
  then show ?thesis
    by (simp add: collide_row_def list_all2_refl refl)
qed

lemma absorb_all_rel:
  assumes refl: "\<And>b. R b b"
    and flag: "\<And>b. R b (b\<lparr>merged := True\<rparr>)"
  shows "list_all2 R (bodies h) (bodies (absorb_all h))"
proof (cases "star h")
  case None
  then show ?thesis by (simp add: absorb_all_def list_all2_refl refl)
next
  case (Some st)
  have "R b (absorb st b)" for b
    by (simp add: absorb_def Let_def refl flag)
  then show ?thesis
    using Some by (simp add: absorb_all_def list_all2_conv_all_nth)
qed

lemma handleCollisions_rel:
  assumes refl: "\<And>b. R b b"
    and flag: "\<And>b. R b (b\<lparr>merged := True\<rparr>)"
    and mrg: "\<And>a b. \<not> expl \<Longrightarrow> R a (merge_into a b)"
    and trans: "\<And>a b c. R a b \<Longrightarrow> R b c \<Longrightarrow> R a c"
  shows "list_all2 R (bodies h) (bodies (handleCollisions rnd expl h))"
proof -
  have 1: "list_all2 R (bodies h) (bodies (absorb_all h))"
    using refl flag by (rule absorb_all_rel [where R = R])
  have 2: "list_all2 R (bodies (absorb_all h))
      (bodies (fold (collide_row rnd expl) [0..<length (bodies (absorb_all h))] (absorb_all h)))"
  proof (rule fold_rel [where R = R])
    show "list_all2 R (bodies g) (bodies (collide_row rnd expl x g))" for x g
      using refl flag mrg trans by (rule collide_row_rel [where R = R])
  qed (use refl trans in blast)+
  have "list_all2 R (bodies h)
      (bodies (fold (collide_row rnd expl) [0..<length (bodies (absorb_all h))] (absorb_all h)))"
    using trans 1 2 by (rule list_all2_trans [where ?P1.0 = R and ?P2.0 = R])
  then show ?thesis
    by (simp add: handleCollisions_def Let_def)
qed

lemma fold_star:
  assumes "\<And>x g. star (f x g) = star g"
  shows "star (fold f xs h) = star h"
  by (induction xs arbitrary: h) (simp_all add: assms)

lemma merge_into_frame:
  "merged (merge_into a b) = merged a" "trail (merge_into a b) = trail a"
  "escaped (merge_into a b) = escaped a" "acceleration (merge_into a b) = acceleration a"
  by (simp_all add: merge_into_def Let_def)

lemma handleCollisions_star: "star (handleCollisions rnd expl h) = star h"
proof -
  have row: "star (collide_row rnd expl i g) = star g" for i g
    by (simp add: collide_row_def fold_star collide_pair_frame)
  have "star (absorb_all h) = star h"
    by (simp add: absorb_all_def split: option.splits)
  then show ?thesis
    by (simp add: handleCollisions_def Let_def fold_star row)
qed

lemma handleCollisions_length:
  "length (bodies (handleCollisions rnd expl h)) = length (bodies h)"
  using handleCollisions_rel [where R = "\<lambda>a b. True" and h = h and rnd = rnd and expl = expl]
  by (simp add: list_all2_lengthD)

lemma handleCollisions_merged_mono:
  "list_all2 (\<lambda>b b'. merged b \<longrightarrow> merged b') (bodies g) (bodies (handleCollisions rnd expl g))"
  by (rule handleCollisions_rel) (simp_all add: merge_into_frame)

subsection \<open>Merging a pair\<close>

lemma collide_pair_merge:
  assumes "i < j" "j < length (bodies h)" "\<not> merged (bodies h ! j)"
    "overlapping (bodies h ! i) (bodies h ! j)"
  shows "bodies (collide_pair rnd False i j h) ! i = merge_into (bodies h ! i) (bodies h ! j)"
    and "bodies (collide_pair rnd False i j h) ! j = (bodies h ! j)\<lparr>merged := True\<rparr>"
  using assms by (simp_all add: collide_pair_def Let_def)

text \<open>
  Claim C1.  When the resolver, under the merge policy (\<open>fragments\<close> is \<open>null\<close>),
  reaches an overlapping pair \<open>(a, b)\<close> of bodies with positive masses whose second
  body is not flagged, the surviving body \<open>a\<close> ends with mass \<open>m_a + m_b\<close>, with momentum
  \<open>m_a * v_a + m_b * v_b\<close>, with the mass-weighted averages of the pair's positions and
  velocities as its position and velocity, and with radius \<open>cbrt (r_a^3 + r_b^3)\<close>; the
  other body is flagged \<open>merged\<close>, and the survivor's own flag is not touched.
\<close>

theorem merge_conserves:
  assumes ij: "i < j" "j < length (bodies h)"
    and live: "\<not> merged (bodies h ! j)"
    and ov: "overlapping (bodies h ! i) (bodies h ! j)"
    and pos: "0 < mass (bodies h ! i)" "0 < mass (bodies h ! j)"
  shows "let a = bodies h ! i; b = bodies h ! j;
             h' = collide_pair rnd False i j h;
             s = bodies h' ! i
         in mass s = mass a + mass b
          \<and> mass s * vx (velocity s) = mass a * vx (velocity a) + mass b * vx (velocity b)
          \<and> mass s * vy (velocity s) = mass a * vy (velocity a) + mass b * vy (velocity b)
          \<and> vx (velocity s)
              = (mass a * vx (velocity a) + mass b * vx (velocity b)) / (mass a + mass b)
          \<and> vy (velocity s)
              = (mass a * vy (velocity a) + mass b * vy (velocity b)) / (mass a + mass b)
          \<and> pos_x (position s)
              = (mass a * pos_x (position a) + mass b * pos_x (position b)) / (mass a + mass b)
          \<and> pos_y (position s)
              = (mass a * pos_y (position a) + mass b * pos_y (position b)) / (mass a + mass b)
          \<and> radius s = root 3 (radius a ^ 3 + radius b ^ 3)
          \<and> merged (bodies h' ! j)
          \<and> merged s = merged a"
proof -
  have nz: "mass (bodies h ! i) + mass (bodies h ! j) \<noteq> 0"
    using pos by linarith
  show ?thesis
    unfolding Let_def collide_pair_merge [OF ij live ov]
    using nz by (simp add: merge_into_def Let_def Math_cbrt_def mult.commute)
qed

theorem merge_conserves_witness:
  "overlapping mover_a mover_b \<and> 0 < mass mover_a \<and> 0 < mass mover_b
   \<and> (let s = bodies (collide_pair no_jitter False 0 1 (scene [mover_a, mover_b] None)) ! 0
      in mass s = 400 \<and> mass s * vx (velocity s) = 0 \<and> mass s * vy (velocity s) = 1200
       \<and> vx (velocity s) = 0 \<and> vy (velocity s) = 3
       \<and> pos_x (position s) = 3 / 4 \<and> pos_y (position s) = 0
       \<and> radius s = root 3 1024 \<and> \<not> merged s)
   \<and> merged (bodies (collide_pair no_jitter False 0 1 (scene [mover_a, mover_b] None)) ! 1)"
  using merge_conserves [of 0 1 "scene [mover_a, mover_b] None" no_jitter]
  by (simp add: scene_def mover_a_def mover_b_def CelestialBody_def overlapping_def Let_def)

subsection \<open>The force accumulator\<close>

lemma length_with_acc: "length (with_acc bs fx fy) = length bs"
  by (simp add: with_acc_def)

lemma nth_with_acc:
  "k < length bs \<Longrightarrow> with_acc bs fx fy ! k = (bs ! k)\<lparr>acceleration := \<lparr>ax = fx k, ay = fy k\<rparr>\<rparr>"
  by (simp add: with_acc_def)

lemma pair_force_with_acc:
  assumes "i < j" "j < length bs"
  shows "pair_force i j (with_acc bs fx fy)
    = with_acc bs
        (acc_pair (\<lambda>k. mass (bs ! k)) (\<lambda>a b. pull_x (position (bs ! a)) (position (bs ! b))) i j fx)
        (acc_pair (\<lambda>k. mass (bs ! k)) (\<lambda>a b. pull_y (position (bs ! a)) (position (bs ! b))) i j fy)"
proof (rule nth_equalityI)
  show "length (pair_force i j (with_acc bs fx fy)) = length (with_acc bs
        (acc_pair (\<lambda>k. mass (bs ! k)) (\<lambda>a b. pull_x (position (bs ! a)) (position (bs ! b))) i j fx)
        (acc_pair (\<lambda>k. mass (bs ! k)) (\<lambda>a b. pull_y (position (bs ! a)) (position (bs ! b))) i j fy))"
    by (simp add: pair_force_def Let_def length_with_acc)
next
  fix k
  assume "k < length (pair_force i j (with_acc bs fx fy))"
  then have k: "k < length bs"
    by (simp add: pair_force_def Let_def length_with_acc)
  have i: "i < length bs" using assms by simp
  show "pair_force i j (with_acc bs fx fy) ! k = with_acc bs
        (acc_pair (\<lambda>k. mass (bs ! k)) (\<lambda>a b. pull_x (position (bs ! a)) (position (bs ! b))) i j fx)
        (acc_pair (\<lambda>k. mass (bs ! k)) (\<lambda>a b. pull_y (position (bs ! a)) (position (bs ! b))) i j fy) ! k"
    using assms k i
    by (simp add: pair_force_def Let_def nth_with_acc length_with_acc nth_list_update
        acc_pair_def pull_x_def pull_y_def)
qed

lemma fold_pair_force_with_acc:
  assumes "\<forall>j \<in> set js. i < j \<and> j < length bs"
  shows "fold (pair_force i) js (with_acc bs fx fy)
    = with_acc bs
        (fold (acc_pair (\<lambda>k. mass (bs ! k)) (\<lambda>a b. pull_x (position (bs ! a)) (position (bs ! b))) i) js fx)
        (fold (acc_pair (\<lambda>k. mass (bs ! k)) (\<lambda>a b. pull_y (position (bs ! a)) (position (bs ! b))) i) js fy)"
  using assms
  by (induction js arbitrary: fx fy) (simp_all add: pair_force_with_acc)

lemma pair_rows_with_acc:
  "fold (\<lambda>i cur. fold (pair_force i) [Suc i..<length cur] cur) rows (with_acc bs fx fy)
    = with_acc bs
        (fold (\<lambda>i. fold (acc_pair (\<lambda>k. mass (bs ! k))
                 (\<lambda>a b. pull_x (position (bs ! a)) (position (bs ! b))) i) [Suc i..<length bs]) rows fx)
        (fold (\<lambda>i. fold (acc_pair (\<lambda>k. mass (bs ! k))
                 (\<lambda>a b. pull_y (position (bs ! a)) (position (bs ! b))) i) [Suc i..<length bs]) rows fy)"
  by (induction rows arbitrary: fx fy)
    (simp_all add: length_with_acc fold_pair_force_with_acc)

lemma acc_row:
  "fold (acc_pair w P i) [Suc i..<q] f k
    = f k + (if k = i then (\<Sum>j \<in> {i<..<q}. w j * P i j)
             else if i < k \<and> k < q then - w i * P i k else 0)"
proof (induction q)
  case 0
  show ?case by simp
next
  case (Suc q)
  show ?case
  proof (cases "Suc i \<le> q")
    case False
    then have "{i<..<Suc q} = {}" by auto
    with False show ?thesis by auto
  next
    case True
    define g where "g = fold (acc_pair w P i) [Suc i..<q] f"
    have g: "g k = f k + (if k = i then (\<Sum>j \<in> {i<..<q}. w j * P i j)
             else if i < k \<and> k < q then - w i * P i k else 0)"
      unfolding g_def by (rule Suc.IH)
    have split: "{i<..<Suc q} = insert q {i<..<q}" using True by auto
    have "fold (acc_pair w P i) [Suc i..<Suc q] f k = acc_pair w P i q g k"
      using True by (simp add: upt_Suc_append g_def)
    also have "\<dots> = (if k = q then g k - w i * P i q
                       else if k = i then g k + w q * P i q else g k)"
      by (simp add: acc_pair_def)
    also have "\<dots> = f k + (if k = i then (\<Sum>j \<in> {i<..<Suc q}. w j * P i j)
             else if i < k \<and> k < Suc q then - w i * P i k else 0)"
      using True unfolding g split by auto
    finally show ?thesis .
  qed
qed

lemma acc_rows:
  assumes "m \<le> n" "k < n"
  shows "fold (\<lambda>i. fold (acc_pair w P i) [Suc i..<n]) [0..<m] f k
    = f k + (if k < m then (\<Sum>j \<in> {k<..<n}. w j * P k j) else 0)
          + (\<Sum>i \<in> {..<min m k}. - w i * P i k)"
  using assms
proof (induction m)
  case 0
  show ?case by simp
next
  case (Suc m)
  define g where "g = fold (\<lambda>i. fold (acc_pair w P i) [Suc i..<n]) [0..<m] f"
  have g: "g k = f k + (if k < m then (\<Sum>j \<in> {k<..<n}. w j * P k j) else 0)
          + (\<Sum>i \<in> {..<min m k}. - w i * P i k)"
    unfolding g_def using Suc by simp
  have "fold (\<lambda>i. fold (acc_pair w P i) [Suc i..<n]) [0..<Suc m] f k
    = fold (acc_pair w P m) [Suc m..<n] g k"
    by (simp add: g_def)
  also have "\<dots> = g k + (if k = m then (\<Sum>j \<in> {m<..<n}. w j * P m j)
             else if m < k \<and> k < n then - w m * P m k else 0)"
    by (rule acc_row)
  finally have step: "fold (\<lambda>i. fold (acc_pair w P i) [Suc i..<n]) [0..<Suc m] f k
    = g k + (if k = m then (\<Sum>j \<in> {m<..<n}. w j * P m j)
             else if m < k \<and> k < n then - w m * P m k else 0)" .
  consider "k < m" | "k = m" | "m < k" by linarith
  then show ?case
  proof cases
    case 1
    then have "min (Suc m) k = k" "min m k = k" by simp_all
    with 1 show ?thesis
      unfolding step g by simp
  next
    case 2
    then have "min (Suc m) k = m" "min m k = m" by simp_all
    with 2 show ?thesis
      unfolding step g by simp
  next
    case 3
    then have "min (Suc m) k = Suc m" "min m k = m" by simp_all
    with 3 Suc.prems show ?thesis
      unfolding step g by simp
  qed
qed

lemma acc_all:
  assumes anti: "\<And>a b. P a b = - P b a" and k: "k < n"
  shows "fold (\<lambda>i. fold (acc_pair w P i) [Suc i..<n]) [0..<n] f k
    = f k + (\<Sum>j \<in> {..<n} - {k}. w j * P k j)"
proof -
  have parts: "{..<n} - {k} = {..<k} \<union> {k<..<n}" using k by auto
  have "(\<Sum>j \<in> {..<n} - {k}. w j * P k j)
      = (\<Sum>j \<in> {..<k}. w j * P k j) + (\<Sum>j \<in> {k<..<n}. w j * P k j)"
    unfolding parts by (rule sum.union_disjoint) auto
  moreover have "(\<Sum>i \<in> {..<k}. - w i * P i k) = (\<Sum>j \<in> {..<k}. w j * P k j)"
    by (rule sum.cong) (simp_all add: anti [of _ k])
  moreover have "min n k = k" using k by simp
  ultimately show ?thesis
    using k by (simp add: acc_rows [of n n k])
qed

lemma pull_antisym: "pull_x q p = - pull_x p q" "pull_y q p = - pull_y p q"
proof -
  have sq: "(pos_x p - pos_x q) * (pos_x p - pos_x q) = (pos_x q - pos_x p) * (pos_x q - pos_x p)"
    "(pos_y p - pos_y q) * (pos_y p - pos_y q) = (pos_y q - pos_y p) * (pos_y q - pos_y p)"
    by algebra+
  have neg: "c / d * (u - v) / s = - (c / d * (v - u) / s)" for c d u v s :: real
    by (simp add: right_diff_distrib diff_divide_distrib)
  show "pull_x q p = - pull_x p q"
    unfolding pull_x_def Let_def sq by (rule neg)
  show "pull_y q p = - pull_y p q"
    unfolding pull_y_def Let_def sq by (rule neg)
qed

lemma with_acc_cong:
  assumes "\<And>k. k < length bs \<Longrightarrow> fx k = gx k" "\<And>k. k < length bs \<Longrightarrow> fy k = gy k"
  shows "with_acc bs fx fy = with_acc bs gx gy"
  using assms by (simp add: with_acc_def)

lemma pair_forces_with_acc:
  "pair_forces (with_acc bs fx fy)
     = with_acc bs (\<lambda>k. fx k + others_term pull_x bs k) (\<lambda>k. fy k + others_term pull_y bs k)"
proof -
  have "pair_forces (with_acc bs fx fy)
    = with_acc bs
        (fold (\<lambda>i. fold (acc_pair (\<lambda>k. mass (bs ! k))
                 (\<lambda>a b. pull_x (position (bs ! a)) (position (bs ! b))) i) [Suc i..<length bs])
           [0..<length bs] fx)
        (fold (\<lambda>i. fold (acc_pair (\<lambda>k. mass (bs ! k))
                 (\<lambda>a b. pull_y (position (bs ! a)) (position (bs ! b))) i) [Suc i..<length bs])
           [0..<length bs] fy)"
    unfolding pair_forces_def length_with_acc by (rule pair_rows_with_acc)
  also have "\<dots> = with_acc bs (\<lambda>k. fx k + others_term pull_x bs k)
                         (\<lambda>k. fy k + others_term pull_y bs k)"
  proof (rule with_acc_cong)
    fix k assume k: "k < length bs"
    show "fold (\<lambda>i. fold (acc_pair (\<lambda>k. mass (bs ! k))
                 (\<lambda>a b. pull_x (position (bs ! a)) (position (bs ! b))) i) [Suc i..<length bs])
           [0..<length bs] fx k = fx k + others_term pull_x bs k"
      unfolding others_term_def
      by (rule acc_all [OF _ k]) (rule pull_antisym)
    show "fold (\<lambda>i. fold (acc_pair (\<lambda>k. mass (bs ! k))
                 (\<lambda>a b. pull_y (position (bs ! a)) (position (bs ! b))) i) [Suc i..<length bs])
           [0..<length bs] fy k = fy k + others_term pull_y bs k"
      unfolding others_term_def
      by (rule acc_all [OF _ k]) (rule pull_antisym)
  qed
  finally show ?thesis .
qed

lemma star_loop_with_acc:
  "(case st of None \<Rightarrow> map reset_acc bs | Some s \<Rightarrow> map (star_pull s) (map reset_acc bs))
     = with_acc bs (\<lambda>k. star_term pull_x st (bs ! k)) (\<lambda>k. star_term pull_y st (bs ! k))"
proof (cases st)
  case None
  then show ?thesis
    by (auto simp: with_acc_def reset_acc_def star_term_def intro!: nth_equalityI)
next
  case (Some s)
  have "star_pull s (reset_acc b)
      = b\<lparr>acceleration := \<lparr>ax = star_mass s * pull_x (position b) (star_position s),
                             ay = star_mass s * pull_y (position b) (star_position s)\<rparr>\<rparr>" for b
    by (simp add: star_pull_def reset_acc_def pull_x_def pull_y_def Let_def)
  then show ?thesis
    using Some by (auto simp: with_acc_def star_term_def intro!: nth_equalityI)
qed

lemma computeAccelerations_closed:
  "computeAccelerations h
     = h\<lparr>bodies := map (\<lambda>k. (bodies h ! k)\<lparr>acceleration := net_acceleration (bodies h) (star h) k\<rparr>)
                       [0..<length (bodies h)]\<rparr>"
proof -
  have "bodies (computeAccelerations h)
      = pair_forces (with_acc (bodies h) (\<lambda>k. star_term pull_x (star h) (bodies h ! k))
                       (\<lambda>k. star_term pull_y (star h) (bodies h ! k)))"
    by (simp add: computeAccelerations_def Let_def star_loop_with_acc)
  also have "\<dots> = map (\<lambda>k. (bodies h ! k)\<lparr>acceleration := net_acceleration (bodies h) (star h) k\<rparr>)
                       [0..<length (bodies h)]"
    unfolding pair_forces_with_acc by (simp add: with_acc_def net_acceleration_def)
  finally show ?thesis
    by (simp add: computeAccelerations_def Let_def)
qed

lemma others_term_cong:
  assumes "map position bs = map position bs'" "map mass bs = map mass bs'" "k < length bs"
  shows "others_term pull bs k = others_term pull bs' k"
proof -
  have len: "length bs' = length bs"
    using assms(1) by (metis length_map)
  have p: "position (bs ! j) = position (bs' ! j)" if "j < length bs" for j
    using that assms(1) len by (metis nth_map)
  have m: "mass (bs ! j) = mass (bs' ! j)" if "j < length bs" for j
    using that assms(2) len by (metis nth_map)
  show ?thesis
    unfolding others_term_def len
    by (rule sum.cong) (use assms(3) p m in auto)
qed

lemma net_acceleration_cong:
  assumes "map position bs = map position bs'" "map mass bs = map mass bs'" "k < length bs"
  shows "net_acceleration bs st k = net_acceleration bs' st k"
proof -
  have "position (bs ! k) = position (bs' ! k)"
    using assms by (metis length_map nth_map)
  then have "star_term pull st (bs ! k) = star_term pull st (bs' ! k)" for pull
    by (cases st) (simp_all add: star_term_def)
  then show ?thesis
    unfolding net_acceleration_def others_term_cong [OF assms] by simp
qed

lemma pull_magnitude:
  "(pull_x p q)\<^sup>2 + (pull_y p q)\<^sup>2
     = (G / ((pos_x q - pos_x p)\<^sup>2 + (pos_y q - pos_y p)\<^sup>2 + 25))\<^sup>2
       * (((pos_x q - pos_x p)\<^sup>2 + (pos_y q - pos_y p)\<^sup>2)
            / ((pos_x q - pos_x p)\<^sup>2 + (pos_y q - pos_y p)\<^sup>2 + 25))"
proof -
  define u where "u = pos_x q - pos_x p"
  define v where "v = pos_y q - pos_y p"
  define D where "D = u\<^sup>2 + v\<^sup>2 + 25"
  have D: "0 < D" unfolding D_def by (simp add: add_nonneg_pos)
  then have s: "(sqrt D)\<^sup>2 = D" by simp
  have px: "pull_x p q = G / D * u / sqrt D" and py: "pull_y p q = G / D * v / sqrt D"
    by (simp_all add: pull_x_def pull_y_def Let_def u_def v_def D_def SOFTENING_SQ_def
        SOFTENING_def power2_eq_square)
  have "(pull_x p q)\<^sup>2 + (pull_y p q)\<^sup>2 = (G / D)\<^sup>2 * ((u\<^sup>2 + v\<^sup>2) / D)"
    unfolding px py by (simp add: power_divide s algebra_simps add_divide_distrib)
  then show ?thesis
    by (simp add: u_def v_def D_def)
qed

text \<open>
  Claim C6, as the code has it.  After a force-accumulation pass every body keeps its
  fields except the acceleration, which is the sum, over the star (when present) and every
  other body, of \<open>G * m / (d\<^sup>2 + \<epsilon>\<^sup>2)\<close> times the displacement towards that attractor
  divided by the softened distance \<open>sqrt (d\<^sup>2 + \<epsilon>\<^sup>2)\<close>, with \<open>\<epsilon> = 5\<close>.  The
  softened distance also normalises the direction, so the magnitude of a contribution is
  \<open>G * m / (d\<^sup>2 + \<epsilon>\<^sup>2)\<close> times \<open>d / sqrt (d\<^sup>2 + \<epsilon>\<^sup>2)\<close> and not
  \<open>G * m / (d\<^sup>2 + \<epsilon>\<^sup>2)\<close> itself.  The result depends on the positions and masses
  only, positions and velocities are left as they were, the star is not written, and the
  pull of \<open>q\<close> on \<open>p\<close> is the opposite of the pull of \<open>p\<close> on \<open>q\<close>.
\<close>

theorem force_accumulation:
  "computeAccelerations h
     = h\<lparr>bodies := map (\<lambda>k. (bodies h ! k)\<lparr>acceleration := net_acceleration (bodies h) (star h) k\<rparr>)
                       [0..<length (bodies h)]\<rparr>
   \<and> (\<forall>k < length (bodies h).
         position (bodies (computeAccelerations h) ! k) = position (bodies h ! k)
       \<and> velocity (bodies (computeAccelerations h) ! k) = velocity (bodies h ! k)
       \<and> acceleration (bodies (computeAccelerations h) ! k) = net_acceleration (bodies h) (star h) k)
   \<and> star (computeAccelerations h) = star h
   \<and> (\<forall>bs' k. map position (bodies h) = map position bs' \<and> map mass (bodies h) = map mass bs'
         \<and> k < length (bodies h)
         \<longrightarrow> net_acceleration (bodies h) (star h) k = net_acceleration bs' (star h) k)
   \<and> pull_x p q = G / ((pos_x q - pos_x p) * (pos_x q - pos_x p)
                          + (pos_y q - pos_y p) * (pos_y q - pos_y p) + 5 * 5)
                    * (pos_x q - pos_x p)
                    / sqrt ((pos_x q - pos_x p) * (pos_x q - pos_x p)
                          + (pos_y q - pos_y p) * (pos_y q - pos_y p) + 5 * 5)
   \<and> pull_y p q = G / ((pos_x q - pos_x p) * (pos_x q - pos_x p)
                          + (pos_y q - pos_y p) * (pos_y q - pos_y p) + 5 * 5)
                    * (pos_y q - pos_y p)
                    / sqrt ((pos_x q - pos_x p) * (pos_x q - pos_x p)
                          + (pos_y q - pos_y p) * (pos_y q - pos_y p) + 5 * 5)
   \<and> pull_x q p = - pull_x p q \<and> pull_y q p = - pull_y p q
   \<and> (pull_x p q)\<^sup>2 + (pull_y p q)\<^sup>2
       = (G / ((pos_x q - pos_x p)\<^sup>2 + (pos_y q - pos_y p)\<^sup>2 + 25))\<^sup>2
         * (((pos_x q - pos_x p)\<^sup>2 + (pos_y q - pos_y p)\<^sup>2)
              / ((pos_x q - pos_x p)\<^sup>2 + (pos_y q - pos_y p)\<^sup>2 + 25))"
proof -
  have 1: "computeAccelerations h
     = h\<lparr>bodies := map (\<lambda>k. (bodies h ! k)\<lparr>acceleration := net_acceleration (bodies h) (star h) k\<rparr>)
                       [0..<length (bodies h)]\<rparr>"
    by (rule computeAccelerations_closed)
  have 2: "\<forall>k < length (bodies h).
         position (bodies (computeAccelerations h) ! k) = position (bodies h ! k)
       \<and> velocity (bodies (computeAccelerations h) ! k) = velocity (bodies h ! k)
       \<and> acceleration (bodies (computeAccelerations h) ! k) = net_acceleration (bodies h) (star h) k"
    by (subst 1, subst 1, subst 1) simp
  have 3: "star (computeAccelerations h) = star h"
    by (subst 1) simp
  have 4: "\<forall>bs' k. map position (bodies h) = map position bs' \<and> map mass (bodies h) = map mass bs'
         \<and> k < length (bodies h)
         \<longrightarrow> net_acceleration (bodies h) (star h) k = net_acceleration bs' (star h) k"
    using net_acceleration_cong by blast
  have 5: "pull_x p q = G / ((pos_x q - pos_x p) * (pos_x q - pos_x p)
                          + (pos_y q - pos_y p) * (pos_y q - pos_y p) + 5 * 5)
                    * (pos_x q - pos_x p)
                    / sqrt ((pos_x q - pos_x p) * (pos_x q - pos_x p)
                          + (pos_y q - pos_y p) * (pos_y q - pos_y p) + 5 * 5)"
    by (simp add: pull_x_def Let_def SOFTENING_SQ_def SOFTENING_def)
  have 6: "pull_y p q = G / ((pos_x q - pos_x p) * (pos_x q - pos_x p)
                          + (pos_y q - pos_y p) * (pos_y q - pos_y p) + 5 * 5)
                    * (pos_y q - pos_y p)
                    / sqrt ((pos_x q - pos_x p) * (pos_x q - pos_x p)
                          + (pos_y q - pos_y p) * (pos_y q - pos_y p) + 5 * 5)"
    by (simp add: pull_y_def Let_def SOFTENING_SQ_def SOFTENING_def)
  show ?thesis
    using 1 2 3 4 5 6 pull_antisym [of q p] pull_magnitude [of p q] by blast
qed

lemma probe_acceleration:
  "net_acceleration [probe] (Some (Star 0 0)) 0 = \<lparr>ax = - (24000000 / 2197), ay = 0\<rparr>"
  by (simp add: net_acceleration_def star_term_def others_term_def probe_def CelestialBody_def
      Star_def pull_x_def pull_y_def Let_def G_def SOFTENING_SQ_def SOFTENING_def)

theorem force_accumulation_witness:
  "position (bodies (computeAccelerations (scene [probe] (Some (Star 0 0)))) ! 0)
     = \<lparr>pos_x = 12, pos_y = 0\<rparr>
   \<and> velocity (bodies (computeAccelerations (scene [probe] (Some (Star 0 0)))) ! 0)
     = \<lparr>vx = 0, vy = 0\<rparr>
   \<and> acceleration (bodies (computeAccelerations (scene [probe] (Some (Star 0 0)))) ! 0)
     = \<lparr>ax = - (24000000 / 2197), ay = 0\<rparr>
   \<and> net_acceleration [probe\<lparr>velocity := \<lparr>vx = 7, vy = 7\<rparr>\<rparr>] (Some (Star 0 0)) 0
     = \<lparr>ax = - (24000000 / 2197), ay = 0\<rparr>"
proof -
  let ?h = "scene [probe] (Some (Star 0 0))"
  let ?bs = "[probe\<lparr>velocity := \<lparr>vx = 7, vy = 7\<rparr>\<rparr>]"
  note T = force_accumulation [of ?h "position probe" "position probe"]
  have a: "bodies ?h = [probe]" "star ?h = Some (Star 0 0)"
    by (simp_all add: scene_def)
  have c: "position probe = \<lparr>pos_x = 12, pos_y = 0\<rparr>" "velocity probe = \<lparr>vx = 0, vy = 0\<rparr>"
    by (simp_all add: probe_def CelestialBody_def)
  from T have "\<forall>k < length (bodies ?h).
         position (bodies (computeAccelerations ?h) ! k) = position (bodies ?h ! k)
       \<and> velocity (bodies (computeAccelerations ?h) ! k) = velocity (bodies ?h ! k)
       \<and> acceleration (bodies (computeAccelerations ?h) ! k)
           = net_acceleration (bodies ?h) (star ?h) k"
    by (elim conjE)
  then have kin: "position (bodies (computeAccelerations ?h) ! 0) = \<lparr>pos_x = 12, pos_y = 0\<rparr>"
    "velocity (bodies (computeAccelerations ?h) ! 0) = \<lparr>vx = 0, vy = 0\<rparr>"
    "acceleration (bodies (computeAccelerations ?h) ! 0) = \<lparr>ax = - (24000000 / 2197), ay = 0\<rparr>"
    unfolding a by (simp_all add: probe_acceleration c)
  from T have "\<forall>bs' k. map position (bodies ?h) = map position bs'
         \<and> map mass (bodies ?h) = map mass bs' \<and> k < length (bodies ?h)
         \<longrightarrow> net_acceleration (bodies ?h) (star ?h) k = net_acceleration bs' (star ?h) k"
    by (elim conjE)
  then have "map position (bodies ?h) = map position ?bs
         \<and> map mass (bodies ?h) = map mass ?bs \<and> 0 < length (bodies ?h)
         \<longrightarrow> net_acceleration (bodies ?h) (star ?h) 0 = net_acceleration ?bs (star ?h) 0"
    by blast
  then have "net_acceleration ?bs (Some (Star 0 0)) 0 = \<lparr>ax = - (24000000 / 2197), ay = 0\<rparr>"
    unfolding a by (simp add: probe_acceleration)
  with kin show ?thesis by simp
qed

text \<open>
  Read as a vector of magnitude \<open>G * M / (d\<^sup>2 + \<epsilon>\<^sup>2)\<close> pointing at the attractor, the
  claim fails: for a body 12 pixels to the right of the star the code's acceleration is
  \<open>12 / 13\<close> of that.
\<close>

theorem force_magnitude_counterexample:
  "ax (acceleration (bodies (computeAccelerations (scene [probe] (Some (Star 0 0)))) ! 0))
     \<noteq> - (G * star_mass (Star 0 0) / (12 * 12 + 0 * 0 + SOFTENING_SQ))"
proof -
  have "bodies (computeAccelerations (scene [probe] (Some (Star 0 0))))
      = [probe\<lparr>acceleration := net_acceleration [probe] (Some (Star 0 0)) 0\<rparr>]"
    by (simp add: computeAccelerations_closed scene_def)
  then have l: "ax (acceleration (bodies (computeAccelerations (scene [probe] (Some (Star 0 0)))) ! 0))
      = - (24000000 / 2197)"
    by (simp add: probe_acceleration)
  have r: "G * star_mass (Star 0 0) / (12 * 12 + 0 * 0 + SOFTENING_SQ) = 2000000 / 169"
    by (simp add: G_def Star_def SOFTENING_SQ_def SOFTENING_def)
  show ?thesis
    unfolding l r by simp
qed

subsection \<open>The structure of a step\<close>

lemma kick_drift_comp: "kick_drift \<delta> = drift \<delta> \<circ> kick \<delta>"
  by (rule ext) (simp add: kick_drift_def)

lemma substep_phases: "substep rnd e \<delta> h = spec_substep rnd e \<delta> h"
  by (simp add: substep_def spec_substep_def half_kick_def drift_positions_def record_trails_def
      kick_drift_comp Let_def)

lemma step_unrolled:
  "step rnd t e h = (spec_substep rnd e (t / 4) ^^ 4) (h\<lparr>fragments := []\<rparr>)"
proof -
  have "[0..<SUBSTEPS] = [0, 1, 2, 3]"
    by (simp add: SUBSTEPS_def upt_rec)
  moreover have "(spec_substep rnd e (t / 4) ^^ 4) g
      = spec_substep rnd e (t / 4) (spec_substep rnd e (t / 4)
          (spec_substep rnd e (t / 4) (spec_substep rnd e (t / 4) g)))" for g
    by (simp add: numeral_eq_Suc)
  ultimately show ?thesis
    by (simp add: step_def Let_def substep_phases SUBSTEPS_def)
qed

text \<open>
  Claim C7.  A call of \<open>step\<close> runs exactly four substeps of size \<open>frameTimeSec / 4\<close>,
  and a substep is, in this order: the accelerations at the current positions, the half
  kick \<open>v += 0.5 * a * \<delta>\<close>, the drift \<open>p += v * \<delta>\<close>, the accelerations at the new
  positions, the second half kick, the trail entry, and one collision pass.  So the
  accelerations are computed twice and the collisions resolved once in every substep.
\<close>

theorem step_structure:
  "step rnd t e h = spec_step rnd t e h
   \<and> spec_step rnd t e h
       = spec_substep rnd e (t / 4) (spec_substep rnd e (t / 4)
           (spec_substep rnd e (t / 4) (spec_substep rnd e (t / 4) (h\<lparr>fragments := []\<rparr>))))
   \<and> velocity (kick \<delta> b) = \<lparr>vx = vx (velocity b) + 0.5 * ax (acceleration b) * \<delta>,
                              vy = vy (velocity b) + 0.5 * ay (acceleration b) * \<delta>\<rparr>
   \<and> position (kick \<delta> b) = position b
   \<and> position (drift \<delta> b) = \<lparr>pos_x = pos_x (position b) + vx (velocity b) * \<delta>,
                                pos_y = pos_y (position b) + vy (velocity b) * \<delta>\<rparr>
   \<and> velocity (drift \<delta> b) = velocity b"
  by (simp add: step_unrolled spec_step_def kick_def drift_def numeral_eq_Suc)

subsection \<open>What a step does to each body\<close>

lemma list_all2_graded:
  assumes comp: "\<And>a b c. R m a b \<Longrightarrow> R n b c \<Longrightarrow> R (m + n) a c"
    and "list_all2 (R m) xs ys" "list_all2 (R n) ys zs"
  shows "list_all2 (R (m + n)) xs zs"
  using assms by (rule list_all2_trans [where ?P1.0 = "R m" and ?P2.0 = "R n"])

lemma computeAccelerations_rel:
  assumes "\<And>b a. R b (b\<lparr>acceleration := a\<rparr>)"
  shows "list_all2 R (bodies h) (bodies (computeAccelerations h))"
  by (subst computeAccelerations_closed) (simp add: list_all2_conv_all_nth assms)

lemma map_rel:
  assumes "\<And>b. R b (f b)"
  shows "list_all2 R bs (map f bs)"
  by (simp add: list_all2_conv_all_nth assms)

lemma substep_graded:
  fixes R :: "nat \<Rightarrow> body \<Rightarrow> body \<Rightarrow> bool"
  assumes comp: "\<And>m n a b c. R m a b \<Longrightarrow> R n b c \<Longrightarrow> R (m + n) a c"
    and acc: "\<And>b a. R 0 b (b\<lparr>acceleration := a\<rparr>)"
    and kick: "\<And>b. R 0 b (kick \<delta> b)"
    and drift: "\<And>b. R 0 b (drift \<delta> b)"
    and trail: "\<And>b. R (Suc 0) b (record_trail b)"
    and col: "\<And>g n. list_all2 (R n) (bodies h0) (bodies g) \<Longrightarrow>
                list_all2 (R 0) (bodies g) (bodies (handleCollisions rnd e g))"
    and start: "list_all2 (R n) (bodies h0) (bodies h)"
  shows "list_all2 (R (Suc n)) (bodies h0) (bodies (spec_substep rnd e \<delta> h))"
proof -
  have next0: "list_all2 (R k) (bodies h0) (bodies g') "
    if "list_all2 (R k) (bodies h0) (bodies g)" "list_all2 (R 0) (bodies g) (bodies g')" for k g g'
    using list_all2_graded [of R k 0, OF comp that] by simp
  define h1 where "h1 = computeAccelerations h"
  define h2 where "h2 = half_kick \<delta> h1"
  define h3 where "h3 = drift_positions \<delta> h2"
  define h4 where "h4 = computeAccelerations h3"
  define h5 where "h5 = half_kick \<delta> h4"
  define h6 where "h6 = record_trails h5"
  have 1: "list_all2 (R n) (bodies h0) (bodies h1)"
    unfolding h1_def by (rule next0 [OF start]) (rule computeAccelerations_rel, rule acc)
  have 2: "list_all2 (R n) (bodies h0) (bodies h2)"
    unfolding h2_def half_kick_def by (rule next0 [OF 1]) (simp add: map_rel kick)
  have 3: "list_all2 (R n) (bodies h0) (bodies h3)"
    unfolding h3_def drift_positions_def by (rule next0 [OF 2]) (simp add: map_rel drift)
  have 4: "list_all2 (R n) (bodies h0) (bodies h4)"
    unfolding h4_def by (rule next0 [OF 3]) (rule computeAccelerations_rel, rule acc)
  have 5: "list_all2 (R n) (bodies h0) (bodies h5)"
    unfolding h5_def half_kick_def by (rule next0 [OF 4]) (simp add: map_rel kick)
  have "list_all2 (R (Suc 0)) (bodies h5) (bodies h6)"
    unfolding h6_def record_trails_def by (simp add: map_rel trail)
  then have 6: "list_all2 (R (Suc n)) (bodies h0) (bodies h6)"
    using list_all2_graded [of R n "Suc 0", OF comp 5] by simp
  have "list_all2 (R (Suc n)) (bodies h0) (bodies (handleCollisions rnd e h6))"
    by (rule next0 [OF 6]) (rule col [OF 6])
  then show ?thesis
    by (simp add: spec_substep_def h6_def h5_def h4_def h3_def h2_def h1_def)
qed

lemma step_graded:
  fixes R :: "nat \<Rightarrow> body \<Rightarrow> body \<Rightarrow> bool"
  assumes refl: "\<And>b. R 0 b b"
    and comp: "\<And>m n a b c. R m a b \<Longrightarrow> R n b c \<Longrightarrow> R (m + n) a c"
    and acc: "\<And>b a. R 0 b (b\<lparr>acceleration := a\<rparr>)"
    and kick: "\<And>b. R 0 b (kick (t / 4) b)"
    and drift: "\<And>b. R 0 b (drift (t / 4) b)"
    and trail: "\<And>b. R (Suc 0) b (record_trail b)"
    and col: "\<And>g n. list_all2 (R n) (bodies h) (bodies g) \<Longrightarrow>
                list_all2 (R 0) (bodies g) (bodies (handleCollisions rnd e g))"
  shows "list_all2 (R 4) (bodies h) (bodies (step rnd t e h))"
proof -
  let ?h0 = "h\<lparr>fragments := []\<rparr>"
  have b0: "bodies ?h0 = bodies h" by simp
  have col0: "list_all2 (R 0) (bodies g) (bodies (handleCollisions rnd e g))"
    if "list_all2 (R n) (bodies ?h0) (bodies g)" for g n
    using that unfolding b0 by (rule col)
  have sub: "list_all2 (R (Suc n)) (bodies ?h0) (bodies (spec_substep rnd e (t / 4) g))"
    if "list_all2 (R n) (bodies ?h0) (bodies g)" for n g
  proof (rule substep_graded [where R = R and ?h0.0 = ?h0])
    show "list_all2 (R n) (bodies ?h0) (bodies g)" by (rule that)
  qed (use comp acc kick drift trail col0 in blast)+
  have 0: "list_all2 (R 0) (bodies ?h0) (bodies ?h0)"
    by (simp add: list_all2_refl refl)
  have 1: "list_all2 (R (Suc 0)) (bodies ?h0) (bodies (spec_substep rnd e (t / 4) ?h0))"
    using 0 by (rule sub)
  have 2: "list_all2 (R (Suc (Suc 0))) (bodies ?h0)
      (bodies (spec_substep rnd e (t / 4) (spec_substep rnd e (t / 4) ?h0)))"
    using 1 by (rule sub)
  have 3: "list_all2 (R (Suc (Suc (Suc 0)))) (bodies ?h0)
      (bodies (spec_substep rnd e (t / 4) (spec_substep rnd e (t / 4)
         (spec_substep rnd e (t / 4) ?h0))))"
    using 2 by (rule sub)
  have 4: "list_all2 (R (Suc (Suc (Suc (Suc 0))))) (bodies ?h0)
      (bodies (spec_substep rnd e (t / 4) (spec_substep rnd e (t / 4)
         (spec_substep rnd e (t / 4) (spec_substep rnd e (t / 4) ?h0)))))"
    using 3 by (rule sub)
  have "(4::nat) = Suc (Suc (Suc (Suc 0)))" by simp
  then show ?thesis
    using 4 unfolding b0 by (simp add: step_unrolled numeral_eq_Suc)
qed

subsection \<open>The trail\<close>

lemma length_trail_push:
  "length (trail_push p t)
     = (if length t < TRAIL_MAX_LENGTH then Suc (length t) else length t)"
  by (simp add: trail_push_def Let_def)

lemma trail_grows_comp:
  "trail_grows m a b \<Longrightarrow> trail_grows n b c \<Longrightarrow> trail_grows (m + n) a c"
  by (auto simp: trail_grows_def)

lemma trail_grows_same: "trail b' = trail b \<Longrightarrow> trail_grows 0 b b'"
  by (simp add: trail_grows_def)

lemma trail_grows_record: "trail_grows (Suc 0) b (record_trail b)"
  by (simp add: trail_grows_def record_trail_def length_trail_push TRAIL_MAX_LENGTH_def)

lemma step_trail_grows:
  "list_all2 (trail_grows 4) (bodies h) (bodies (step rnd t e h))"
proof (rule step_graded)
  show "trail_grows 0 b b" for b by (simp add: trail_grows_same)
  show "trail_grows m a b \<Longrightarrow> trail_grows n b c \<Longrightarrow> trail_grows (m + n) a c" for m n a b c
    by (rule trail_grows_comp)
  show "trail_grows 0 b (b\<lparr>acceleration := a\<rparr>)" for b a by (simp add: trail_grows_same)
  show "trail_grows 0 b (kick (t / 4) b)" for b by (simp add: trail_grows_same kick_def)
  show "trail_grows 0 b (drift (t / 4) b)" for b by (simp add: trail_grows_same drift_def)
  show "trail_grows (Suc 0) b (record_trail b)" for b by (rule trail_grows_record)
  show "list_all2 (trail_grows 0) (bodies g) (bodies (handleCollisions rnd e g))" for g
  proof (rule handleCollisions_rel)
    show "trail_grows 0 a b \<Longrightarrow> trail_grows 0 b c \<Longrightarrow> trail_grows 0 a c" for a b c
      using trail_grows_comp [of 0 a b 0 c] by simp
  qed (simp_all add: trail_grows_same merge_into_frame)
qed

lemma run_steps_trail_grows:
  "list_all2 (trail_grows (4 * length frames)) (bodies h) (bodies (run_steps rnd frames h))"
proof (induction frames arbitrary: h)
  case Nil
  show ?case by (simp add: list_all2_refl trail_grows_same)
next
  case (Cons f frames)
  obtain t e where f: "f = (t, e)" by (cases f)
  have "list_all2 (trail_grows (4 + 4 * length frames)) (bodies h)
      (bodies (run_steps rnd frames (step rnd t e h)))"
    using trail_grows_comp step_trail_grows Cons.IH by (rule list_all2_graded)
  then show ?case by (simp add: f)
qed

lemma trail_push_cases:
  "trail_push p t = (if length t < TRAIL_MAX_LENGTH then t @ [p] else tl (t @ [p]))"
  by (simp add: trail_push_def Let_def)

lemma position_eta: "\<lparr>pos_x = pos_x p, pos_y = pos_y p\<rparr> = p"
  by (cases p) simp

lemma record_trail_push: "record_trail b = b\<lparr>trail := trail_push (position b) (trail b)\<rparr>"
  by (simp add: record_trail_def position_eta)

lemma computeAccelerations_nth:
  "k < length (bodies h) \<Longrightarrow>
     bodies (computeAccelerations h) ! k
       = (bodies h ! k)\<lparr>acceleration := net_acceleration (bodies h) (star h) k\<rparr>"
  by (subst computeAccelerations_closed) simp

lemma computeAccelerations_length:
  "length (bodies (computeAccelerations h)) = length (bodies h)"
  by (subst computeAccelerations_closed) simp

lemma before_collisions_nth:
  assumes "k < length (bodies h)"
  shows "position (bodies (record_trails (half_kick \<delta> (computeAccelerations
            (drift_positions \<delta> (half_kick \<delta> (computeAccelerations h)))))) ! k) = drifted \<delta> h k"
    and "trail (bodies (record_trails (half_kick \<delta> (computeAccelerations
            (drift_positions \<delta> (half_kick \<delta> (computeAccelerations h)))))) ! k)
         = trail_push (drifted \<delta> h k) (trail (bodies h ! k))"
proof -
  define g where "g = drift_positions \<delta> (half_kick \<delta> (computeAccelerations h))"
  have len: "length (bodies g) = length (bodies h)"
    by (simp add: g_def drift_positions_def half_kick_def computeAccelerations_length)
  have gk: "bodies g ! k
      = drift \<delta> (kick \<delta> ((bodies h ! k)\<lparr>acceleration := net_acceleration (bodies h) (star h) k\<rparr>))"
    using assms
    by (simp add: g_def drift_positions_def half_kick_def computeAccelerations_length
        computeAccelerations_nth)
  have pos: "position (bodies g ! k) = drifted \<delta> h k"
    unfolding gk by (simp add: drift_def kick_def drifted_def Let_def)
  have tr: "trail (bodies g ! k) = trail (bodies h ! k)"
    unfolding gk by (simp add: drift_def kick_def)
  have pre: "bodies (half_kick \<delta> (computeAccelerations g)) ! k
      = kick \<delta> ((bodies g ! k)\<lparr>acceleration := net_acceleration (bodies g) (star g) k\<rparr>)"
    using assms len by (simp add: half_kick_def computeAccelerations_length computeAccelerations_nth)
  have rec: "bodies (record_trails (half_kick \<delta> (computeAccelerations g))) ! k
      = record_trail (kick \<delta> ((bodies g ! k)\<lparr>acceleration := net_acceleration (bodies g) (star g) k\<rparr>))"
    using assms len pre
    by (simp add: record_trails_def half_kick_def computeAccelerations_length)
  show "position (bodies (record_trails (half_kick \<delta> (computeAccelerations
            (drift_positions \<delta> (half_kick \<delta> (computeAccelerations h)))))) ! k) = drifted \<delta> h k"
    unfolding g_def [symmetric] rec using pos by (simp add: record_trail_def kick_def)
  show "trail (bodies (record_trails (half_kick \<delta> (computeAccelerations
            (drift_positions \<delta> (half_kick \<delta> (computeAccelerations h)))))) ! k)
         = trail_push (drifted \<delta> h k) (trail (bodies h ! k))"
    unfolding g_def [symmetric] rec using pos tr
    by (simp add: record_trail_push kick_def)
qed

lemma before_collisions_length:
  "length (bodies (record_trails (half_kick \<delta> (computeAccelerations
            (drift_positions \<delta> (half_kick \<delta> (computeAccelerations h))))))) = length (bodies h)"
  by (simp add: record_trails_def half_kick_def drift_positions_def computeAccelerations_length)

lemma handleCollisions_trail:
  "list_all2 (\<lambda>b b'. trail b' = trail b) (bodies g) (bodies (handleCollisions rnd e g))"
  by (rule handleCollisions_rel) (simp_all add: merge_into_frame)

lemma substep_trail:
  assumes "k < length (bodies h)"
  shows "trail (bodies (spec_substep rnd e \<delta> h) ! k)
           = trail_push (drifted \<delta> h k) (trail (bodies h ! k))"
    and "length (bodies (spec_substep rnd e \<delta> h)) = length (bodies h)"
proof -
  let ?g = "record_trails (half_kick \<delta> (computeAccelerations
            (drift_positions \<delta> (half_kick \<delta> (computeAccelerations h)))))"
  note c = handleCollisions_trail [of ?g rnd e]
  have len: "length (bodies ?g) = length (bodies h)" by (rule before_collisions_length)
  show "length (bodies (spec_substep rnd e \<delta> h)) = length (bodies h)"
    using c len by (simp add: spec_substep_def list_all2_lengthD)
  have "trail (bodies (handleCollisions rnd e ?g) ! k) = trail (bodies ?g ! k)"
    using c assms len by (simp add: list_all2_conv_all_nth)
  then show "trail (bodies (spec_substep rnd e \<delta> h) ! k)
           = trail_push (drifted \<delta> h k) (trail (bodies h ! k))"
    using before_collisions_nth(2) [OF assms] by (simp add: spec_substep_def)
qed

lemma fold_trail_push:
  "length t \<le> TRAIL_MAX_LENGTH \<Longrightarrow>
     fold trail_push qs t = drop (length t + length qs - TRAIL_MAX_LENGTH) (t @ qs)"
proof (induction qs arbitrary: t)
  case Nil
  then show ?case by simp
next
  case (Cons q qs)
  show ?case
  proof (cases "length t < TRAIL_MAX_LENGTH")
    case True
    then have "trail_push q t = t @ [q]" by (simp add: trail_push_cases)
    moreover have "length (t @ [q]) \<le> TRAIL_MAX_LENGTH" using True by simp
    ultimately show ?thesis
      using Cons.IH [of "t @ [q]"] by simp
  next
    case False
    then have full: "length t = TRAIL_MAX_LENGTH" using Cons.prems by simp
    then have ne: "t \<noteq> []" by (auto simp: TRAIL_MAX_LENGTH_def)
    have tp: "trail_push q t = tl t @ [q]"
      using False ne by (simp add: trail_push_cases)
    have l: "length (tl t @ [q]) = TRAIL_MAX_LENGTH"
      using full ne by (cases t) simp_all
    have "length (tl t @ [q]) \<le> TRAIL_MAX_LENGTH" by (simp only: l order_refl)
    then have IH: "fold trail_push qs (tl t @ [q])
        = drop (length (tl t @ [q]) + length qs - TRAIL_MAX_LENGTH) ((tl t @ [q]) @ qs)"
      by (rule Cons.IH)
    have i1: "length (tl t @ [q]) + length qs - TRAIL_MAX_LENGTH = length qs"
      unfolding l by simp
    have i2: "length t + length (q # qs) - TRAIL_MAX_LENGTH = length qs + 1"
      unfolding full by simp
    have "fold trail_push (q # qs) t = fold trail_push qs (tl t @ [q])"
      by (simp only: fold_simps tp)
    also have "\<dots> = drop (length qs) ((tl t @ [q]) @ qs)"
      by (simp only: IH i1)
    also have "(tl t @ [q]) @ qs = drop 1 (t @ q # qs)"
      using ne by (cases t) simp_all
    also have "drop (length qs) (drop 1 (t @ q # qs)) = drop (length qs + 1) (t @ q # qs)"
      by (simp only: drop_drop)
    finally show ?thesis by (simp only: i2)
  qed
qed

lemma planet_a_trail: "trail planet_a = []"
  by (simp add: planet_a_def CelestialBody_def)

lemma step_trail:
  assumes k: "k < length (bodies h)" and cap: "length (trail (bodies h ! k)) \<le> TRAIL_MAX_LENGTH"
  shows "trail (bodies (step rnd dt e h) ! k)
    = (let h0 = h\<lparr>fragments := []\<rparr>;
           h1 = substep rnd e (dt / 4) h0;
           h2 = substep rnd e (dt / 4) h1;
           h3 = substep rnd e (dt / 4) h2
       in drop (length (trail (bodies h ! k)) + 4 - TRAIL_MAX_LENGTH)
            (trail (bodies h ! k)
               @ [drifted (dt / 4) h0 k, drifted (dt / 4) h1 k,
                  drifted (dt / 4) h2 k, drifted (dt / 4) h3 k]))"
proof -
  define h0 where "h0 = h\<lparr>fragments := []\<rparr>"
  define h1 where "h1 = spec_substep rnd e (dt / 4) h0"
  define h2 where "h2 = spec_substep rnd e (dt / 4) h1"
  define h3 where "h3 = spec_substep rnd e (dt / 4) h2"
  define h4 where "h4 = spec_substep rnd e (dt / 4) h3"
  have k0: "k < length (bodies h0)" and t0: "trail (bodies h0 ! k) = trail (bodies h ! k)"
    using k by (simp_all add: h0_def)
  have k1: "k < length (bodies h1)" using k0 by (simp add: h1_def substep_trail(2))
  have k2: "k < length (bodies h2)" using k1 by (simp add: h2_def substep_trail(2))
  have k3: "k < length (bodies h3)" using k2 by (simp add: h3_def substep_trail(2))
  have s1: "trail (bodies h1 ! k)
      = trail_push (drifted (dt / 4) h0 k) (trail (bodies h ! k))"
    unfolding h1_def using substep_trail(1) [OF k0] t0 by simp
  have s2: "trail (bodies h2 ! k) = trail_push (drifted (dt / 4) h1 k) (trail (bodies h1 ! k))"
    unfolding h2_def by (rule substep_trail(1) [OF k1])
  have s3: "trail (bodies h3 ! k) = trail_push (drifted (dt / 4) h2 k) (trail (bodies h2 ! k))"
    unfolding h3_def by (rule substep_trail(1) [OF k2])
  have s4: "trail (bodies h4 ! k) = trail_push (drifted (dt / 4) h3 k) (trail (bodies h3 ! k))"
    unfolding h4_def by (rule substep_trail(1) [OF k3])
  have "trail (bodies h4 ! k)
      = trail_push (drifted (dt / 4) h3 k) (trail_push (drifted (dt / 4) h2 k)
          (trail_push (drifted (dt / 4) h1 k) (trail_push (drifted (dt / 4) h0 k)
             (trail (bodies h ! k)))))"
    by (simp only: s4 s3 s2 s1)
  also have "\<dots> = fold trail_push
      [drifted (dt / 4) h0 k, drifted (dt / 4) h1 k, drifted (dt / 4) h2 k, drifted (dt / 4) h3 k]
      (trail (bodies h ! k))"
    by simp
  also have "\<dots> = drop (length (trail (bodies h ! k))
              + length [drifted (dt / 4) h0 k, drifted (dt / 4) h1 k,
                        drifted (dt / 4) h2 k, drifted (dt / 4) h3 k] - TRAIL_MAX_LENGTH)
            (trail (bodies h ! k)
               @ [drifted (dt / 4) h0 k, drifted (dt / 4) h1 k,
                  drifted (dt / 4) h2 k, drifted (dt / 4) h3 k])"
    by (rule fold_trail_push [OF cap])
  also have "length [drifted (dt / 4) h0 k, drifted (dt / 4) h1 k,
                        drifted (dt / 4) h2 k, drifted (dt / 4) h3 k] = 4"
    by simp
  finally have "trail (bodies h4 ! k)
      = drop (length (trail (bodies h ! k)) + 4 - TRAIL_MAX_LENGTH)
            (trail (bodies h ! k)
               @ [drifted (dt / 4) h0 k, drifted (dt / 4) h1 k,
                  drifted (dt / 4) h2 k, drifted (dt / 4) h3 k])" .
  moreover have "step rnd dt e h = h4"
    by (simp add: step_unrolled numeral_eq_Suc h4_def h3_def h2_def h1_def h0_def)
  ultimately show ?thesis
    by (simp only: Let_def substep_phases h3_def h2_def h1_def h0_def)
qed

lemma lonely_acceleration: "net_acceleration [b] None 0 = \<lparr>ax = 0, ay = 0\<rparr>"
  by (simp add: net_acceleration_def star_term_def others_term_def)

lemma lonely_drifted:
  "drifted \<delta> \<lparr>bodies = [b], star = None, fragments = fs, draws = d\<rparr> 0
     = \<lparr>pos_x = pos_x (position b) + vx (velocity b) * \<delta>,
        pos_y = pos_y (position b) + vy (velocity b) * \<delta>\<rparr>"
  by (simp add: drifted_def lonely_acceleration)

lemma lonely_substep:
  "substep rnd e \<delta> \<lparr>bodies = [b], star = None, fragments = fs, draws = d\<rparr>
     = \<lparr>bodies = [b\<lparr>position := \<lparr>pos_x = pos_x (position b) + vx (velocity b) * \<delta>,
                                  pos_y = pos_y (position b) + vy (velocity b) * \<delta>\<rparr>,
                     trail := trail_push \<lparr>pos_x = pos_x (position b) + vx (velocity b) * \<delta>,
                                          pos_y = pos_y (position b) + vy (velocity b) * \<delta>\<rparr>
                                (trail b),
                     acceleration := \<lparr>ax = 0, ay = 0\<rparr>\<rparr>],
        star = None, fragments = fs, draws = d\<rparr>"
  by (simp add: substep_def computeAccelerations_closed lonely_acceleration kick_drift_def
      kick_def drift_def record_trail_def handleCollisions_def absorb_all_def collide_row_def
      Let_def)

text \<open>
  Claim C9, as the code has it.  A push appends at the end and, when the trail would exceed
  300 entries, drops the oldest one.  A step never changes the number of bodies and pushes
  one entry per substep, four per step: a trail of at most 300 entries has
  \<open>min (n + 4, 300)\<close> entries after a step, and a body that starts with an empty trail has
  \<open>min (4 * steps, 300)\<close> entries after \<open>steps\<close> calls of \<open>step\<close>.  The entry a
  substep pushes is the position the body has after the drift of that substep; after a
  substep the trail of a body is its old trail with that position appended at the end,
  without its oldest entry when 300 entries were there already, and after a step it is
  the old trail followed by the four positions in the order of the substeps, cut from the
  front to 300 entries.
\<close>

theorem trail_bounded:
  "trail_push p t = (if length t < 300 then t @ [p] else tl (t @ [p]))
   \<and> length (bodies (step rnd dt e h)) = length (bodies h)
   \<and> (\<forall>k < length (bodies h). length (trail (bodies h ! k)) \<le> 300 \<longrightarrow>
         length (trail (bodies (step rnd dt e h) ! k)) = min (length (trail (bodies h ! k)) + 4) 300)
   \<and> (\<forall>k < length (bodies h). trail (bodies h ! k) = [] \<longrightarrow>
         length (trail (bodies (run_steps rnd frames h) ! k)) = min (4 * length frames) 300)
   \<and> drifted \<delta> h j
       = \<lparr>pos_x = pos_x (position (bodies h ! j))
                   + (vx (velocity (bodies h ! j))
                      + 0.5 * ax (net_acceleration (bodies h) (star h) j) * \<delta>) * \<delta>,
          pos_y = pos_y (position (bodies h ! j))
                   + (vy (velocity (bodies h ! j))
                      + 0.5 * ay (net_acceleration (bodies h) (star h) j) * \<delta>) * \<delta>\<rparr>
   \<and> (\<forall>k < length (bodies h).
         trail (bodies (substep rnd e \<delta> h) ! k)
           = (if length (trail (bodies h ! k)) < 300
              then trail (bodies h ! k) @ [drifted \<delta> h k]
              else tl (trail (bodies h ! k) @ [drifted \<delta> h k])))
   \<and> (\<forall>k < length (bodies h). length (trail (bodies h ! k)) \<le> 300 \<longrightarrow>
         trail (bodies (step rnd dt e h) ! k)
           = (let h0 = h\<lparr>fragments := []\<rparr>;
                  h1 = substep rnd e (dt / 4) h0;
                  h2 = substep rnd e (dt / 4) h1;
                  h3 = substep rnd e (dt / 4) h2
              in drop (length (trail (bodies h ! k)) + 4 - 300)
                   (trail (bodies h ! k)
                      @ [drifted (dt / 4) h0 k, drifted (dt / 4) h1 k,
                         drifted (dt / 4) h2 k, drifted (dt / 4) h3 k])))"
proof -
  have 1: "trail_push p t = (if length t < 300 then t @ [p] else tl (t @ [p]))"
    using trail_push_cases [of p t] by (simp add: TRAIL_MAX_LENGTH_def)
  note s = step_trail_grows [of h rnd dt e]
  have 2: "length (bodies (step rnd dt e h)) = length (bodies h)"
    using s by (simp add: list_all2_lengthD)
  have 3: "\<forall>k < length (bodies h). length (trail (bodies h ! k)) \<le> 300 \<longrightarrow>
         length (trail (bodies (step rnd dt e h) ! k)) = min (length (trail (bodies h ! k)) + 4) 300"
    using s by (simp add: list_all2_conv_all_nth trail_grows_def TRAIL_MAX_LENGTH_def)
  have 4: "\<forall>k < length (bodies h). trail (bodies h ! k) = [] \<longrightarrow>
         length (trail (bodies (run_steps rnd frames h) ! k)) = min (4 * length frames) 300"
    using run_steps_trail_grows [of frames h rnd]
    by (simp add: list_all2_conv_all_nth trail_grows_def TRAIL_MAX_LENGTH_def)
  have 5: "drifted \<delta> h j
       = \<lparr>pos_x = pos_x (position (bodies h ! j))
                   + (vx (velocity (bodies h ! j))
                      + 0.5 * ax (net_acceleration (bodies h) (star h) j) * \<delta>) * \<delta>,
          pos_y = pos_y (position (bodies h ! j))
                   + (vy (velocity (bodies h ! j))
                      + 0.5 * ay (net_acceleration (bodies h) (star h) j) * \<delta>) * \<delta>\<rparr>"
    by (simp add: drifted_def Let_def)
  have 6: "\<forall>k < length (bodies h).
         trail (bodies (substep rnd e \<delta> h) ! k)
           = (if length (trail (bodies h ! k)) < 300
              then trail (bodies h ! k) @ [drifted \<delta> h k]
              else tl (trail (bodies h ! k) @ [drifted \<delta> h k]))"
    using substep_trail(1) [of _ h rnd e \<delta>]
    by (simp only: substep_phases trail_push_cases TRAIL_MAX_LENGTH_def) simp
  have 7: "\<forall>k < length (bodies h). length (trail (bodies h ! k)) \<le> 300 \<longrightarrow>
         trail (bodies (step rnd dt e h) ! k)
           = (let h0 = h\<lparr>fragments := []\<rparr>;
                  h1 = substep rnd e (dt / 4) h0;
                  h2 = substep rnd e (dt / 4) h1;
                  h3 = substep rnd e (dt / 4) h2
              in drop (length (trail (bodies h ! k)) + 4 - 300)
                   (trail (bodies h ! k)
                      @ [drifted (dt / 4) h0 k, drifted (dt / 4) h1 k,
                         drifted (dt / 4) h2 k, drifted (dt / 4) h3 k]))"
    using step_trail [of _ h rnd dt e] unfolding TRAIL_MAX_LENGTH_def by blast
  show ?thesis using 1 2 3 4 5 6 7 by blast
qed

lemma mover_a_fields:
  "position mover_a = \<lparr>pos_x = 0, pos_y = 0\<rparr>" "velocity mover_a = \<lparr>vx = 3, vy = 0\<rparr>"
  "trail mover_a = []"
  by (simp_all add: mover_a_def CelestialBody_def)

lemma veteran_fields:
  "position veteran = \<lparr>pos_x = 0, pos_y = 0\<rparr>" "velocity veteran = \<lparr>vx = 3, vy = 0\<rparr>"
  "trail veteran = replicate 300 \<lparr>pos_x = 0, pos_y = 0\<rparr>"
  by (simp_all add: veteran_def mover_a_fields)

theorem trail_bounded_witness:
  "trail (bodies (scene [planet_a] None) ! 0) = []
   \<and> length (trail (bodies (step no_jitter (1 / 60) False (scene [planet_a] None)) ! 0)) = 4
   \<and> length (trail (bodies (run_steps no_jitter (replicate 100 (1 / 60, False))
                               (scene [planet_a] None)) ! 0)) = 300
   \<and> trail (bodies (step no_jitter 1 False (scene [mover_a] None)) ! 0)
       = [\<lparr>pos_x = 3 / 4, pos_y = 0\<rparr>, \<lparr>pos_x = 3 / 2, pos_y = 0\<rparr>,
          \<lparr>pos_x = 9 / 4, pos_y = 0\<rparr>, \<lparr>pos_x = 3, pos_y = 0\<rparr>]
   \<and> length (trail (bodies (scene [veteran] None) ! 0)) = 300
   \<and> trail (bodies (step no_jitter 1 False (scene [veteran] None)) ! 0)
       = replicate 296 \<lparr>pos_x = 0, pos_y = 0\<rparr>
         @ [\<lparr>pos_x = 3 / 4, pos_y = 0\<rparr>, \<lparr>pos_x = 3 / 2, pos_y = 0\<rparr>,
            \<lparr>pos_x = 9 / 4, pos_y = 0\<rparr>, \<lparr>pos_x = 3, pos_y = 0\<rparr>]"
proof -
  let ?h = "scene [planet_a] None"
  note T = trail_bounded [where rnd = no_jitter and dt = "1 / 60" and e = False
        and h = ?h and frames = "replicate 100 (1 / 60, False)"
        and p = "position planet_a" and t = "[]" and \<delta> = 0 and j = 0]
  from T have "\<forall>k < length (bodies ?h). length (trail (bodies ?h ! k)) \<le> 300 \<longrightarrow>
         length (trail (bodies (step no_jitter (1 / 60) False ?h) ! k))
           = min (length (trail (bodies ?h ! k)) + 4) 300"
    by (elim conjE)
  then have a1: "length (trail (bodies (step no_jitter (1 / 60) False ?h) ! 0)) = 4"
    by (simp add: scene_def planet_a_trail)
  from T have "\<forall>k < length (bodies ?h). trail (bodies ?h ! k) = [] \<longrightarrow>
         length (trail (bodies (run_steps no_jitter (replicate 100 (1 / 60, False)) ?h) ! k))
           = min (4 * length (replicate 100 (1 / 60 :: real, False))) 300"
    by (elim conjE)
  then have a2: "length (trail (bodies (run_steps no_jitter (replicate 100 (1 / 60, False)) ?h) ! 0))
      = 300"
    by (simp add: scene_def planet_a_trail)
  have a0: "trail (bodies ?h ! 0) = []"
    by (simp add: scene_def planet_a_trail)
  have content: "trail (bodies (step no_jitter 1 False (scene [b] None)) ! 0)
      = (let h0 = (scene [b] None)\<lparr>fragments := []\<rparr>;
             h1 = substep no_jitter False (1 / 4) h0;
             h2 = substep no_jitter False (1 / 4) h1;
             h3 = substep no_jitter False (1 / 4) h2
         in drop (length (trail b) + 4 - 300)
              (trail b @ [drifted (1 / 4) h0 0, drifted (1 / 4) h1 0,
                          drifted (1 / 4) h2 0, drifted (1 / 4) h3 0]))"
    if "length (trail b) \<le> 300" for b
  proof -
    let ?g = "scene [b] None"
    from trail_bounded [where rnd = no_jitter and dt = 1 and e = False
        and h = ?g and frames = "[]" and p = "position b" and t = "[]" and \<delta> = 0 and j = 0]
    have "\<forall>k < length (bodies ?g). length (trail (bodies ?g ! k)) \<le> 300 \<longrightarrow>
         trail (bodies (step no_jitter 1 False ?g) ! k)
           = (let h0 = ?g\<lparr>fragments := []\<rparr>;
                  h1 = substep no_jitter False (1 / 4) h0;
                  h2 = substep no_jitter False (1 / 4) h1;
                  h3 = substep no_jitter False (1 / 4) h2
              in drop (length (trail (bodies ?g ! k)) + 4 - 300)
                   (trail (bodies ?g ! k)
                      @ [drifted (1 / 4) h0 k, drifted (1 / 4) h1 k,
                         drifted (1 / 4) h2 k, drifted (1 / 4) h3 k]))"
      by (elim conjE)
    moreover have "bodies ?g = [b]" by (simp add: scene_def)
    ultimately show ?thesis using that by simp
  qed
  have m: "trail (bodies (step no_jitter 1 False (scene [mover_a] None)) ! 0)
       = [\<lparr>pos_x = 3 / 4, pos_y = 0\<rparr>, \<lparr>pos_x = 3 / 2, pos_y = 0\<rparr>,
          \<lparr>pos_x = 9 / 4, pos_y = 0\<rparr>, \<lparr>pos_x = 3, pos_y = 0\<rparr>]"
    by (subst content)
      (simp_all add: scene_def lonely_substep lonely_drifted mover_a_fields Let_def)
  have v: "trail (bodies (step no_jitter 1 False (scene [veteran] None)) ! 0)
       = replicate 296 \<lparr>pos_x = 0, pos_y = 0\<rparr>
         @ [\<lparr>pos_x = 3 / 4, pos_y = 0\<rparr>, \<lparr>pos_x = 3 / 2, pos_y = 0\<rparr>,
            \<lparr>pos_x = 9 / 4, pos_y = 0\<rparr>, \<lparr>pos_x = 3, pos_y = 0\<rparr>]"
    by (subst content)
      (simp_all add: scene_def lonely_substep lonely_drifted veteran_fields Let_def)
  have "length (trail (bodies (scene [veteran] None) ! 0)) = 300"
    by (simp add: scene_def veteran_fields)
  with a0 a1 a2 m v show ?thesis by simp
qed

text \<open>
  With the number of calls of \<open>step\<close> as the number of steps taken, the claimed length
  \<open>min (steps, 300)\<close> is wrong: one step leaves four entries.
\<close>

theorem trail_length_counterexample:
  "length (trail (bodies (run_steps no_jitter [(1 / 60, False)] (scene [planet_a] None)) ! 0))
     \<noteq> min (length [(1 / 60 :: real, False)]) 300"
  using run_steps_trail_grows [of "[(1 / 60, False)]" "scene [planet_a] None" no_jitter]
  by (simp add: scene_def planet_a_trail trail_grows_def TRAIL_MAX_LENGTH_def
      list_all2_conv_all_nth)

subsection \<open>A step of zero length\<close>

lemma kick_zero: "kick 0 b = b"
  by (simp add: kick_def)

lemma drift_zero: "drift 0 b = b"
  by (simp add: drift_def)

lemma frozen_comp: "frozen m a b \<Longrightarrow> frozen n b c \<Longrightarrow> frozen (m + n) a c"
  by (simp add: frozen_def add.commute [of m n] funpow_add)

lemma frozen_same:
  "position b' = position b \<Longrightarrow> velocity b' = velocity b \<Longrightarrow> radius b' = radius b \<Longrightarrow>
   trail b' = trail b \<Longrightarrow> frozen 0 b b'"
  by (simp add: frozen_def)

lemma collide_pair_apart:
  "\<not> overlapping (bodies h ! i) (bodies h ! j) \<Longrightarrow> collide_pair rnd e i j h = h"
  by (simp add: collide_pair_def Let_def)

lemma fold_fixed:
  assumes "\<And>x. x \<in> set xs \<Longrightarrow> f x h = h"
  shows "fold f xs h = h"
  using assms by (induction xs) simp_all

lemma collide_row_apart:
  assumes "no_overlap (bodies h)"
  shows "collide_row rnd e i h = h"
proof -
  have "collide_pair rnd e i j h = h" if "j \<in> set [Suc i..<length (bodies h)]" for j
    using that assms by (intro collide_pair_apart) (simp add: no_overlap_def)
  then have "fold (collide_pair rnd e i) [Suc i..<length (bodies h)] h = h"
    by (rule fold_fixed)
  then show ?thesis
    by (simp add: collide_row_def)
qed

lemma handleCollisions_apart:
  assumes "no_overlap (bodies (absorb_all h))"
  shows "handleCollisions rnd e h = absorb_all h"
  using assms by (simp add: handleCollisions_def Let_def fold_fixed collide_row_apart)

lemma overlapping_cong:
  assumes "position a' = position a" "radius a' = radius a"
    "position b' = position b" "radius b' = radius b"
  shows "overlapping a' b' = overlapping a b"
  using assms by (simp add: overlapping_def)

lemma no_overlap_frozen:
  assumes "list_all2 (frozen n) bs bs'" "no_overlap bs"
  shows "no_overlap bs'"
proof -
  have len: "length bs' = length bs"
    using assms(1) by (simp add: list_all2_lengthD)
  have f: "frozen n (bs ! k) (bs' ! k)" if "k < length bs" for k
    using assms(1) that by (simp add: list_all2_conv_all_nth)
  have "overlapping (bs' ! i) (bs' ! j) = overlapping (bs ! i) (bs ! j)"
    if "j < length bs" "i < j" for i j
    using f [of i] f [of j] that by (intro overlapping_cong) (simp_all add: frozen_def)
  then show ?thesis
    using assms(2) by (simp add: no_overlap_def len)
qed

lemma handleCollisions_frozen:
  assumes "e \<or> no_overlap (bodies g)"
  shows "list_all2 (frozen 0) (bodies g) (bodies (handleCollisions rnd e g))"
proof (cases e)
  case True
  show ?thesis
  proof (rule handleCollisions_rel)
    show "frozen 0 a b \<Longrightarrow> frozen 0 b c \<Longrightarrow> frozen 0 a c" for a b c
      using frozen_comp [of 0 a b 0 c] by simp
  qed (simp_all add: frozen_def True)
next
  case False
  have ab: "list_all2 (frozen 0) (bodies g) (bodies (absorb_all g))"
    by (rule absorb_all_rel) (simp_all add: frozen_def)
  then have "no_overlap (bodies (absorb_all g))"
    using assms False by (intro no_overlap_frozen [OF ab]) simp
  then show ?thesis
    using ab by (simp add: handleCollisions_apart)
qed

lemma zero_step_frozen:
  assumes "e \<or> no_overlap (bodies h)"
  shows "list_all2 (frozen 4) (bodies h) (bodies (step rnd 0 e h))"
proof (rule step_graded)
  show "frozen 0 b b" for b by (simp add: frozen_def)
  show "frozen m a b \<Longrightarrow> frozen n b c \<Longrightarrow> frozen (m + n) a c" for m n a b c
    by (rule frozen_comp)
  show "frozen 0 b (b\<lparr>acceleration := a\<rparr>)" for b a by (simp add: frozen_def)
  show "frozen 0 b (kick (0 / 4) b)" for b by (simp add: frozen_def kick_zero)
  show "frozen 0 b (drift (0 / 4) b)" for b by (simp add: frozen_def drift_zero)
  show "frozen (Suc 0) b (record_trail b)" for b by (simp add: frozen_def record_trail_push)
  show "list_all2 (frozen 0) (bodies g) (bodies (handleCollisions rnd e g))"
    if "list_all2 (frozen n) (bodies h) (bodies g)" for g n
    using assms no_overlap_frozen [OF that] by (intro handleCollisions_frozen) blast
qed

lemma trail_push_room:
  "length t + n \<le> TRAIL_MAX_LENGTH \<Longrightarrow> (trail_push p ^^ n) t = t @ replicate n p"
proof (induction n)
  case 0
  show ?case by simp
next
  case (Suc n)
  then have IH: "(trail_push p ^^ n) t = t @ replicate n p" by simp
  have "(trail_push p ^^ Suc n) t = trail_push p (t @ replicate n p)"
    by (simp add: IH)
  also have "\<dots> = (t @ replicate n p) @ [p]"
    using Suc.prems by (simp add: trail_push_cases)
  also have "\<dots> = t @ replicate (Suc n) p"
    by (simp add: replicate_append_same)
  finally show ?case .
qed

text \<open>
  Claim C3, as the code has it.  A step with \<open>frameTimeSec = 0\<close> leaves every body's
  position and velocity unchanged when the explode policy is on or no two bodies overlap
  (under the merge policy an overlapping pair is still merged, which moves the survivor).
  The trails are not left alone: every substep pushes the body's position, so each trail
  gets four copies of it, the oldest entries being dropped beyond 300.
\<close>

theorem step_zero:
  assumes "e \<or> no_overlap (bodies h)"
  shows "length (bodies (step rnd 0 e h)) = length (bodies h)
   \<and> (\<forall>k < length (bodies h).
         position (bodies (step rnd 0 e h) ! k) = position (bodies h ! k)
       \<and> velocity (bodies (step rnd 0 e h) ! k) = velocity (bodies h ! k)
       \<and> trail (bodies (step rnd 0 e h) ! k)
           = (trail_push (position (bodies h ! k)) ^^ 4) (trail (bodies h ! k))
       \<and> (length (trail (bodies h ! k)) + 4 \<le> 300 \<longrightarrow>
            trail (bodies (step rnd 0 e h) ! k)
              = trail (bodies h ! k) @ replicate 4 (position (bodies h ! k))))"
proof -
  note z = zero_step_frozen [OF assms, of rnd]
  have "length (bodies (step rnd 0 e h)) = length (bodies h)"
    using z by (simp add: list_all2_lengthD)
  moreover have "frozen 4 (bodies h ! k) (bodies (step rnd 0 e h) ! k)"
    if "k < length (bodies h)" for k
    using z that by (simp add: list_all2_conv_all_nth)
  ultimately show ?thesis
    using trail_push_room [of _ 4] by (simp add: frozen_def TRAIL_MAX_LENGTH_def)
qed

lemma no_overlap_single: "no_overlap [b]"
  by (simp add: no_overlap_def)

lemma mover_facts:
  "\<not> merged mover_a" "\<not> merged mover_b"
  "position mover_a = \<lparr>pos_x = 0, pos_y = 0\<rparr>" "position mover_b = \<lparr>pos_x = 1, pos_y = 0\<rparr>"
  "mass mover_a = 100" "mass mover_b = 300" "radius mover_a = 8" "radius mover_b = 8"
  by (simp_all add: mover_a_def mover_b_def CelestialBody_def)

lemma no_overlap_pair: "no_overlap [a, b] = (\<not> overlapping a b)"
  by (auto simp: no_overlap_def less_Suc_eq)

lemma far_b_fields:
  "position far_b = \<lparr>pos_x = 30, pos_y = 40\<rparr>" "velocity far_b = \<lparr>vx = - 1, vy = 4\<rparr>"
  "trail far_b = []" "radius far_b = 8"
  by (simp_all add: far_b_def CelestialBody_def)

lemma mover_b_fields:
  "position mover_b = \<lparr>pos_x = 1, pos_y = 0\<rparr>" "velocity mover_b = \<lparr>vx = - 1, vy = 4\<rparr>"
  "trail mover_b = []"
  by (simp_all add: mover_b_def CelestialBody_def)

lemma movers_apart: "\<not> overlapping mover_a far_b"
  by (simp add: overlapping_def mover_a_fields far_b_fields mover_facts)

lemma movers_overlap: "overlapping mover_a mover_b"
  by (simp add: overlapping_def mover_facts)

theorem step_zero_witness:
  "overlapping mover_a mover_b
   \<and> (let h' = step uneven 0 True (scene [mover_a, mover_b] (Some (Star 200 0)))
      in position (bodies h' ! 0) = \<lparr>pos_x = 0, pos_y = 0\<rparr>
       \<and> velocity (bodies h' ! 0) = \<lparr>vx = 3, vy = 0\<rparr>
       \<and> trail (bodies h' ! 0) = replicate 4 \<lparr>pos_x = 0, pos_y = 0\<rparr>
       \<and> position (bodies h' ! 1) = \<lparr>pos_x = 1, pos_y = 0\<rparr>
       \<and> velocity (bodies h' ! 1) = \<lparr>vx = - 1, vy = 4\<rparr>
       \<and> trail (bodies h' ! 1) = replicate 4 \<lparr>pos_x = 1, pos_y = 0\<rparr>)
   \<and> no_overlap (bodies (scene [mover_a, far_b] (Some (Star 200 0))))
   \<and> (let h' = step no_jitter 0 False (scene [mover_a, far_b] (Some (Star 200 0)))
      in position (bodies h' ! 0) = \<lparr>pos_x = 0, pos_y = 0\<rparr>
       \<and> velocity (bodies h' ! 0) = \<lparr>vx = 3, vy = 0\<rparr>
       \<and> trail (bodies h' ! 0) = replicate 4 \<lparr>pos_x = 0, pos_y = 0\<rparr>
       \<and> position (bodies h' ! 1) = \<lparr>pos_x = 30, pos_y = 40\<rparr>
       \<and> velocity (bodies h' ! 1) = \<lparr>vx = - 1, vy = 4\<rparr>
       \<and> trail (bodies h' ! 1) = replicate 4 \<lparr>pos_x = 30, pos_y = 40\<rparr>)"
proof -
  let ?h1 = "scene [mover_a, mover_b] (Some (Star 200 0))"
  let ?h2 = "scene [mover_a, far_b] (Some (Star 200 0))"
  have b1: "bodies ?h1 = [mover_a, mover_b]" and b2: "bodies ?h2 = [mover_a, far_b]"
    by (simp_all add: scene_def)
  have n2: "no_overlap (bodies ?h2)"
    unfolding b2 by (simp add: no_overlap_pair movers_apart)
  have "True \<or> no_overlap (bodies ?h1)" by simp
  note A = step_zero [OF this, of uneven, THEN conjunct2, rule_format]
  have "False \<or> no_overlap (bodies ?h2)" using n2 by simp
  note B = step_zero [OF this, of no_jitter, THEN conjunct2, rule_format]
  have room: "length ([] :: position list) + 4 \<le> 300" by simp
  have A0: "position (bodies (step uneven 0 True ?h1) ! 0) = \<lparr>pos_x = 0, pos_y = 0\<rparr>
      \<and> velocity (bodies (step uneven 0 True ?h1) ! 0) = \<lparr>vx = 3, vy = 0\<rparr>
      \<and> trail (bodies (step uneven 0 True ?h1) ! 0) = replicate 4 \<lparr>pos_x = 0, pos_y = 0\<rparr>"
    using A [of 0] by (simp add: b1 mover_a_fields trail_push_room TRAIL_MAX_LENGTH_def)
  have A1: "position (bodies (step uneven 0 True ?h1) ! 1) = \<lparr>pos_x = 1, pos_y = 0\<rparr>
      \<and> velocity (bodies (step uneven 0 True ?h1) ! 1) = \<lparr>vx = - 1, vy = 4\<rparr>
      \<and> trail (bodies (step uneven 0 True ?h1) ! 1) = replicate 4 \<lparr>pos_x = 1, pos_y = 0\<rparr>"
    using A [of 1] by (simp add: b1 mover_b_fields trail_push_room TRAIL_MAX_LENGTH_def)
  have B0: "position (bodies (step no_jitter 0 False ?h2) ! 0) = \<lparr>pos_x = 0, pos_y = 0\<rparr>
      \<and> velocity (bodies (step no_jitter 0 False ?h2) ! 0) = \<lparr>vx = 3, vy = 0\<rparr>
      \<and> trail (bodies (step no_jitter 0 False ?h2) ! 0) = replicate 4 \<lparr>pos_x = 0, pos_y = 0\<rparr>"
    using B [of 0] by (simp add: b2 mover_a_fields trail_push_room TRAIL_MAX_LENGTH_def)
  have B1: "position (bodies (step no_jitter 0 False ?h2) ! 1) = \<lparr>pos_x = 30, pos_y = 40\<rparr>
      \<and> velocity (bodies (step no_jitter 0 False ?h2) ! 1) = \<lparr>vx = - 1, vy = 4\<rparr>
      \<and> trail (bodies (step no_jitter 0 False ?h2) ! 1) = replicate 4 \<lparr>pos_x = 30, pos_y = 40\<rparr>"
    using B [of 1] by (simp add: b2 far_b_fields trail_push_room TRAIL_MAX_LENGTH_def)
  show ?thesis
    using movers_overlap n2 A0 A1 B0 B1 by (simp add: Let_def)
qed

text \<open>
  The trail of a single body, empty before a step with \<open>frameTimeSec = 0\<close>, is not
  empty after it.
\<close>

theorem step_zero_trail_counterexample:
  "trail (bodies (step no_jitter 0 False (scene [planet_a] None)) ! 0) \<noteq> trail planet_a"
proof -
  have "list_all2 (frozen 4) (bodies (scene [planet_a] None))
      (bodies (step no_jitter 0 False (scene [planet_a] None)))"
    by (rule zero_step_frozen) (simp add: scene_def no_overlap_single)
  then have "trail (bodies (step no_jitter 0 False (scene [planet_a] None)) ! 0)
      = (trail_push (position planet_a) ^^ 4) []"
    by (simp add: scene_def list_all2_conv_all_nth frozen_def planet_a_trail)
  also have "\<dots> = [] @ replicate 4 (position planet_a)"
    by (rule trail_push_room) (simp add: TRAIL_MAX_LENGTH_def)
  finally show ?thesis
    by (simp add: planet_a_trail)
qed

text \<open>
  Without explosions an overlapping pair is merged even when no time passes, which moves
  the survivor from its position to the barycentre of the pair.
\<close>

lemma upt_2: "[0..<2] = [0, 1]" "[Suc 0..<2] = [1]" "[Suc 1..<2] = []" "[2..<2] = []"
  by (simp_all add: upt_rec)

lemma zero_step_merge_moves:
  "pos_x (position (bodies (step no_jitter 0 False (scene [mover_a, mover_b] None)) ! 0)) = 3 / 4"
  by (simp add: step_unrolled numeral_eq_Suc spec_substep_def half_kick_def drift_positions_def
      record_trails_def kick_zero drift_zero computeAccelerations_closed handleCollisions_def
      absorb_all_def collide_row_def collide_pair_def upt_2 scene_def record_trail_def
      overlapping_def merge_into_def mover_facts Let_def upt_rec)

subsection \<open>The fragments of an explosion\<close>

lemma fragment_count_bounds: "3 \<le> fragment_count a b" "fragment_count a b \<le> 8"
  by (simp_all add: fragment_count_def)

lemma length_explode_fragments: "length (explode_fragments rnd k a b) = fragment_count a b"
  by (simp add: explode_fragments_def)

lemma nth_explode_fragments:
  "i < fragment_count a b \<Longrightarrow> explode_fragments rnd k a b ! i = make_fragment rnd k a b i"
  by (simp add: explode_fragments_def)

lemma make_fragment_mass_radius:
  "frag_mass (make_fragment rnd k a b i) = fragMass a b"
  "frag_radius (make_fragment rnd k a b i) = fragRadius a b"
  by (simp_all add: make_fragment_def Let_def)

lemma explode_fragments_uniform:
  "f \<in> set (explode_fragments rnd k a b) \<Longrightarrow>
     frag_mass f = fragMass a b \<and> frag_radius f = fragRadius a b"
  by (auto simp: explode_fragments_def make_fragment_mass_radius)

lemma shard_count: "fragment_count shard_a shard_b = 3"
  by (simp add: fragment_count_def shard_a_def shard_b_def CelestialBody_def Math_round_def)

lemma shard_radius: "radius shard_a = 2" "radius shard_b = 2"
  by (simp_all add: shard_a_def shard_b_def CelestialBody_def)

lemma planet_count: "fragment_count planet_a planet_b = 5"
  by (simp add: fragment_count_def planet_a_def planet_b_def CelestialBody_def Math_round_def)

lemma planet_values:
  "mass planet_a = 100" "mass planet_b = 100" "radius planet_a = 8" "radius planet_b = 8"
  by (simp_all add: planet_a_def planet_b_def CelestialBody_def)

lemma cbrt_small: "root 3 (16 / 3) < 2"
proof -
  have "root 3 (16 / 3) < root 3 8"
    by (rule real_root_less_mono) simp_all
  then show ?thesis by simp
qed

text \<open>
  Claim C5, as the code has it.  An explosion of the pair \<open>(a, b)\<close> emits exactly
  \<open>N = clamp (round ((r_a + r_b) / 3), 3, 8)\<close> fragments; every fragment has the mass
  \<open>max (1, round ((m_a + m_b) / N))\<close> and the radius \<open>max (2, cbrt ((r_a^3 + r_b^3) / N))\<close>:
  the mass has the floor 1 and the radius has the floor 2.
\<close>

theorem explode_fragment_shape:
  "length (explode_fragments rnd k a b)
     = nat (max 3 (min 8 \<lfloor>(radius a + radius b) / 3 + 1 / 2\<rfloor>))
   \<and> (\<forall>f \<in> set (explode_fragments rnd k a b).
         frag_mass f
           = max 1 (real_of_int \<lfloor>(mass a + mass b) / real (fragment_count a b) + 1 / 2\<rfloor>)
       \<and> frag_radius f
           = max 2 (root 3 ((radius a ^ 3 + radius b ^ 3) / real (fragment_count a b))))"
proof -
  have "length (explode_fragments rnd k a b) = fragment_count a b"
    by (simp add: explode_fragments_def)
  then have len: "length (explode_fragments rnd k a b)
      = nat (max 3 (min 8 \<lfloor>(radius a + radius b) / 3 + 1 / 2\<rfloor>))"
    by (simp only: fragment_count_def Math_round_def)
  have m: "fragMass a b
      = max 1 (real_of_int \<lfloor>(mass a + mass b) / real (fragment_count a b) + 1 / 2\<rfloor>)"
    by (simp only: fragMass_def Math_round_def)
  have r: "fragRadius a b
      = max 2 (root 3 ((radius a ^ 3 + radius b ^ 3) / real (fragment_count a b)))"
    by (simp only: fragRadius_def Math_cbrt_def)
  show ?thesis
    using len explode_fragments_uniform [of _ rnd k a b] m r by metis
qed

theorem explode_fragment_shape_witness:
  "length (explode_fragments no_jitter 0 planet_a planet_b) = 5
   \<and> explode_fragments no_jitter 0 planet_a planet_b ! 0
        \<in> set (explode_fragments no_jitter 0 planet_a planet_b)
   \<and> frag_mass (explode_fragments no_jitter 0 planet_a planet_b ! 0) = 40
   \<and> frag_radius (explode_fragments no_jitter 0 planet_a planet_b ! 0)
        = max 2 (root 3 (1024 / 5))"
proof -
  have m: "explode_fragments no_jitter 0 planet_a planet_b ! 0
        \<in> set (explode_fragments no_jitter 0 planet_a planet_b)"
    by (rule nth_mem) (simp add: length_explode_fragments planet_count)
  show ?thesis
    using explode_fragment_shape [of no_jitter 0 planet_a planet_b] m
    by (simp add: planet_count planet_values)
qed

text \<open>
  The claim without the floors fails: two bodies of radius 2 explode into three fragments of
  radius 2, while \<open>cbrt ((2^3 + 2^3) / 3)\<close> is smaller than 2.
\<close>

theorem explode_fragment_radius_counterexample:
  "frag_radius (explode_fragments no_jitter 0 shard_a shard_b ! 0)
     \<noteq> Math_cbrt ((radius shard_a ^ 3 + radius shard_b ^ 3)
                     / real (fragment_count shard_a shard_b))"
proof -
  have "frag_radius (explode_fragments no_jitter 0 shard_a shard_b ! 0) = 2"
    using cbrt_small
    by (simp add: nth_explode_fragments shard_count make_fragment_def fragRadius_def
        Math_cbrt_def Let_def shard_radius)
  moreover have "Math_cbrt ((radius shard_a ^ 3 + radius shard_b ^ 3)
                     / real (fragment_count shard_a shard_b)) < 2"
    using cbrt_small by (simp add: shard_count Math_cbrt_def shard_radius)
  ultimately show ?thesis by simp
qed

subsection \<open>Mass and momentum of the fragments\<close>

lemma fragMass_pos: "1 \<le> fragMass a b"
  by (simp add: fragMass_def)

lemma sum_list_fragments:
  "sum_list (map g (explode_fragments rnd k a b))
     = (\<Sum>i < fragment_count a b. g (make_fragment rnd k a b i))"
  by (simp add: explode_fragments_def comp_def interv_sum_list_conv_sum_set_nat atLeast0LessThan)

lemma make_fragment_velocity:
  "frag_vx (make_fragment rnd k a b i)
     = (vx (velocity a) * mass a + vx (velocity b) * mass b) / (mass a + mass b)
       + cos (frag_angle rnd k (fragment_count a b) i) * frag_kick rnd k a b i"
  "frag_vy (make_fragment rnd k a b i)
     = (vy (velocity a) * mass a + vy (velocity b) * mass b) / (mass a + mass b)
       + sin (frag_angle rnd k (fragment_count a b) i) * frag_kick rnd k a b i"
  by (simp_all add: make_fragment_def Let_def)

lemma weighted_mean:
  fixes m c :: real and u :: "nat \<Rightarrow> real"
  assumes "0 < m" "0 < n"
  shows "(\<Sum>i < n. m * (c + u i)) / (\<Sum>i < n. m) = c + (\<Sum>i < n. u i) / real n"
proof -
  have "(\<Sum>i < n. m * (c + u i)) = m * (real n * c + (\<Sum>i < n. u i))"
    by (simp add: sum_distrib_left [symmetric] sum.distrib)
  moreover have "(\<Sum>i < n. m) = m * real n" by simp
  ultimately show ?thesis
    using assms by (simp add: add_divide_distrib)
qed

lemma fragment_mean_velocity:
  "(\<Sum>f \<leftarrow> explode_fragments rnd k a b. frag_mass f * frag_vx f)
       / (\<Sum>f \<leftarrow> explode_fragments rnd k a b. frag_mass f)
     = (vx (velocity a) * mass a + vx (velocity b) * mass b) / (mass a + mass b)
       + (\<Sum>i < fragment_count a b.
            cos (frag_angle rnd k (fragment_count a b) i) * frag_kick rnd k a b i)
         / real (fragment_count a b)"
  "(\<Sum>f \<leftarrow> explode_fragments rnd k a b. frag_mass f * frag_vy f)
       / (\<Sum>f \<leftarrow> explode_fragments rnd k a b. frag_mass f)
     = (vy (velocity a) * mass a + vy (velocity b) * mass b) / (mass a + mass b)
       + (\<Sum>i < fragment_count a b.
            sin (frag_angle rnd k (fragment_count a b) i) * frag_kick rnd k a b i)
         / real (fragment_count a b)"
proof -
  have m: "0 < fragMass a b" using fragMass_pos [of a b] by linarith
  have n: "0 < fragment_count a b" using fragment_count_bounds(1) [of a b] by linarith
  show "(\<Sum>f \<leftarrow> explode_fragments rnd k a b. frag_mass f * frag_vx f)
       / (\<Sum>f \<leftarrow> explode_fragments rnd k a b. frag_mass f)
     = (vx (velocity a) * mass a + vx (velocity b) * mass b) / (mass a + mass b)
       + (\<Sum>i < fragment_count a b.
            cos (frag_angle rnd k (fragment_count a b) i) * frag_kick rnd k a b i)
         / real (fragment_count a b)"
    unfolding sum_list_fragments make_fragment_mass_radius make_fragment_velocity
    using m n by (rule weighted_mean)
  show "(\<Sum>f \<leftarrow> explode_fragments rnd k a b. frag_mass f * frag_vy f)
       / (\<Sum>f \<leftarrow> explode_fragments rnd k a b. frag_mass f)
     = (vy (velocity a) * mass a + vy (velocity b) * mass b) / (mass a + mass b)
       + (\<Sum>i < fragment_count a b.
            sin (frag_angle rnd k (fragment_count a b) i) * frag_kick rnd k a b i)
         / real (fragment_count a b)"
    unfolding sum_list_fragments make_fragment_mass_radius make_fragment_velocity
    using m n by (rule weighted_mean)
qed

lemma round_share:
  fixes M :: real and n :: nat
  assumes "1 \<le> M" "2 \<le> n"
  shows "\<bar>real n * max 1 (real_of_int \<lfloor>M / real n + 1 / 2\<rfloor>) - M\<bar> \<le> real n - 1"
proof -
  define r where "r = \<lfloor>M / real n + 1 / 2\<rfloor>"
  have n: "0 < real n" "2 \<le> real n" using assms(2) by simp_all
  have up: "real_of_int r \<le> M / real n + 1 / 2" unfolding r_def by (rule of_int_floor_le)
  have lo: "M / real n + 1 / 2 < real_of_int r + 1" unfolding r_def by linarith
  have up': "real n * real_of_int r \<le> M + real n / 2"
    using up n(1) by (simp add: field_simps)
  have lo': "M - real n / 2 < real n * real_of_int r"
    using lo n(1) by (simp add: field_simps)
  show ?thesis
  proof (cases "1 \<le> r")
    case True
    then have "max 1 (real_of_int r) = real_of_int r" by simp
    then show ?thesis
      unfolding r_def [symmetric] using up' lo' n(2) by simp
  next
    case False
    then have "r \<le> 0" by simp
    then have "real_of_int r \<le> 0" by simp
    then have "real n * real_of_int r \<le> 0"
      using n(1) by (simp add: mult_nonneg_nonpos)
    then have "M < real n / 2" using lo' by simp
    moreover have "max 1 (real_of_int r) = 1" using \<open>real_of_int r \<le> 0\<close> by simp
    ultimately show ?thesis
      unfolding r_def [symmetric] using assms(1) by simp
  qed
qed

lemma fragment_mass_sum:
  "(\<Sum>f \<leftarrow> explode_fragments rnd k a b. frag_mass f)
     = real (fragment_count a b) * fragMass a b"
  by (simp add: sum_list_fragments make_fragment_mass_radius)

lemma cis_not_one:
  assumes "2 \<le> n"
  shows "cis (2 * pi / real n) \<noteq> 1"
proof
  assume "cis (2 * pi / real n) = 1"
  then have "cos (2 * pi / real n) = 1"
    by (simp add: complex_eq_iff)
  then obtain x :: int where x: "2 * pi / real n = real_of_int x * 2 * pi"
    using cos_one_2pi_int by blast
  have n: "0 < real n" using assms by simp
  have "2 * pi / real n * real n = 2 * pi"
    using n by simp
  then have "real_of_int x * 2 * pi * real n = 2 * pi"
    by (simp only: x)
  then have e: "(real_of_int x * real n) * (2 * pi) = 1 * (2 * pi)"
    by (simp only: ac_simps mult_1)
  have "2 * pi \<noteq> 0" by simp
  then have "real_of_int x * real n = 1"
    using e by (rule mult_right_cancel [THEN iffD1])
  then have "real_of_int (x * int n) = 1"
    by simp
  then have "x * int n = 1"
    by (simp only: of_int_eq_1_iff)
  then have "int n = 1 \<or> int n = - 1"
    by (auto simp: zmult_eq_1_iff)
  then show False using assms by simp
qed

lemma roots_of_unity_sum:
  assumes "2 \<le> n"
  shows "(\<Sum>i < n. cis (real i / real n * 2 * pi)) = 0"
proof -
  let ?w = "cis (2 * pi / real n)"
  have n: "real n \<noteq> 0" using assms by simp
  have "real i / real n * 2 * pi = real i * (2 * pi / real n)" for i
    by simp
  then have "cis (real i / real n * 2 * pi) = ?w ^ i" for i
    by (simp only: DeMoivre)
  then have "(\<Sum>i < n. cis (real i / real n * 2 * pi)) = (\<Sum>i < n. ?w ^ i)"
    by simp
  also have "\<dots> = (?w ^ n - 1) / (?w - 1)"
    using cis_not_one [OF assms] by (rule geometric_sum)
  also have "?w ^ n = 1"
    using n by (simp add: DeMoivre)
  finally show ?thesis by simp
qed

lemma cos_sin_ring_sum:
  assumes "2 \<le> n"
  shows "(\<Sum>i < n. cos (real i / real n * 2 * pi)) = 0"
    and "(\<Sum>i < n. sin (real i / real n * 2 * pi)) = 0"
proof -
  have "Re (\<Sum>i < n. cis (real i / real n * 2 * pi)) = 0"
    "Im (\<Sum>i < n. cis (real i / real n * 2 * pi)) = 0"
    by (simp_all only: roots_of_unity_sum [OF assms] zero_complex.sel)
  then show "(\<Sum>i < n. cos (real i / real n * 2 * pi)) = 0"
    and "(\<Sum>i < n. sin (real i / real n * 2 * pi)) = 0"
    by simp_all
qed

lemma no_jitter_kicks:
  assumes "\<And>i. rnd i = 1 / 2"
  shows "(\<Sum>i < fragment_count a b.
            cos (frag_angle rnd k (fragment_count a b) i) * frag_kick rnd k a b i) = 0"
    and "(\<Sum>i < fragment_count a b.
            sin (frag_angle rnd k (fragment_count a b) i) * frag_kick rnd k a b i) = 0"
proof -
  have n: "2 \<le> fragment_count a b"
    using fragment_count_bounds(1) [of a b] by linarith
  have ang: "frag_angle rnd k (fragment_count a b) i
      = real i / real (fragment_count a b) * 2 * pi" for i
    by (simp add: frag_angle_def assms)
  have kk: "frag_kick rnd k a b i = kickSpeed a b" for i
    by (simp add: frag_kick_def assms)
  show "(\<Sum>i < fragment_count a b.
            cos (frag_angle rnd k (fragment_count a b) i) * frag_kick rnd k a b i) = 0"
    unfolding ang kk sum_distrib_right [symmetric] cos_sin_ring_sum(1) [OF n] by simp
  show "(\<Sum>i < fragment_count a b.
            sin (frag_angle rnd k (fragment_count a b) i) * frag_kick rnd k a b i) = 0"
    unfolding ang kk sum_distrib_right [symmetric] cos_sin_ring_sum(2) [OF n] by simp
qed

lemma rock_count: "fragment_count rock_a rock_b = 4"
  by (simp add: fragment_count_def rock_a_def rock_b_def CelestialBody_def Math_round_def)

lemma rock_values:
  "velocity rock_a = \<lparr>vx = 0, vy = 0\<rparr>" "velocity rock_b = \<lparr>vx = 0, vy = 0\<rparr>"
  "mass rock_a = 100" "mass rock_b = 100"
  by (simp_all add: rock_a_def rock_b_def CelestialBody_def)

lemma rock_kickSpeed: "kickSpeed rock_a rock_b = 8"
  by (simp add: kickSpeed_def rock_values)

lemma upto_4: "{..<4::nat} = {0, 1, 2, 3}"
  by auto

lemma cos_three_half_pi: "cos (3 * pi / 2) = 0"
  using cos_3over2_pi by simp

lemma uneven_kick_sum:
  "(\<Sum>i < 4. cos (frag_angle uneven 0 4 i) * frag_kick uneven 0 rock_a rock_b i) = - (12 / 5)"
  by (simp add: upto_4 frag_angle_def frag_kick_def uneven_def rock_kickSpeed cos_three_half_pi)

text \<open>
  Claim C4, as the code has it.  For a pair of bodies with positive masses and every
  sequence of random draws, the mass-weighted average velocity of the fragments of an
  explosion is the pair's centre-of-mass velocity
  plus the mean of the \<open>N\<close> kick vectors \<open>kick\<^sub>i * (cos \<theta>\<^sub>i, sin \<theta>\<^sub>i)\<close>.  The kick
  vectors cancel when no draw jitters (every draw is one half), and then the average is the
  centre-of-mass velocity; for other draws they need not cancel.  The sum of the fragment
  masses is within \<open>N - 1\<close> of the combined mass whenever the combined mass is at
  least 1.
\<close>

theorem explosion_balance:
  assumes "0 < mass a" "0 < mass b"
  shows "(\<Sum>f \<leftarrow> explode_fragments rnd k a b. frag_mass f * frag_vx f)
       / (\<Sum>f \<leftarrow> explode_fragments rnd k a b. frag_mass f)
     = (vx (velocity a) * mass a + vx (velocity b) * mass b) / (mass a + mass b)
       + (\<Sum>i < fragment_count a b.
            cos (frag_angle rnd k (fragment_count a b) i) * frag_kick rnd k a b i)
         / real (fragment_count a b)
   \<and> (\<Sum>f \<leftarrow> explode_fragments rnd k a b. frag_mass f * frag_vy f)
       / (\<Sum>f \<leftarrow> explode_fragments rnd k a b. frag_mass f)
     = (vy (velocity a) * mass a + vy (velocity b) * mass b) / (mass a + mass b)
       + (\<Sum>i < fragment_count a b.
            sin (frag_angle rnd k (fragment_count a b) i) * frag_kick rnd k a b i)
         / real (fragment_count a b)
   \<and> ((\<forall>i. rnd i = 1 / 2) \<longrightarrow>
        (\<Sum>f \<leftarrow> explode_fragments rnd k a b. frag_mass f * frag_vx f)
            / (\<Sum>f \<leftarrow> explode_fragments rnd k a b. frag_mass f)
          = (vx (velocity a) * mass a + vx (velocity b) * mass b) / (mass a + mass b)
      \<and> (\<Sum>f \<leftarrow> explode_fragments rnd k a b. frag_mass f * frag_vy f)
            / (\<Sum>f \<leftarrow> explode_fragments rnd k a b. frag_mass f)
          = (vy (velocity a) * mass a + vy (velocity b) * mass b) / (mass a + mass b))
   \<and> (1 \<le> mass a + mass b \<longrightarrow>
        \<bar>(\<Sum>f \<leftarrow> explode_fragments rnd k a b. frag_mass f) - (mass a + mass b)\<bar>
          \<le> real (fragment_count a b) - 1)"
proof -
  have n: "2 \<le> fragment_count a b"
    using fragment_count_bounds(1) [of a b] by linarith
  have bound: "\<bar>(\<Sum>f \<leftarrow> explode_fragments rnd k a b. frag_mass f) - (mass a + mass b)\<bar>
          \<le> real (fragment_count a b) - 1" if "1 \<le> mass a + mass b"
    unfolding fragment_mass_sum fragMass_def Math_round_def
    using that n by (rule round_share)
  show ?thesis
    using fragment_mean_velocity [of rnd k a b]
      no_jitter_kicks [where rnd = rnd and a = a and b = b and k = k] bound
    by simp
qed

theorem explosion_balance_witness:
  "0 < mass rock_a \<and> 0 < mass rock_b
   \<and> (\<forall>i. no_jitter i = 1 / 2) \<and> 1 \<le> mass rock_a + mass rock_b
   \<and> (\<Sum>f \<leftarrow> explode_fragments no_jitter 0 rock_a rock_b. frag_mass f * frag_vx f)
            / (\<Sum>f \<leftarrow> explode_fragments no_jitter 0 rock_a rock_b. frag_mass f) = 0
   \<and> (\<Sum>f \<leftarrow> explode_fragments no_jitter 0 rock_a rock_b. frag_mass f * frag_vy f)
            / (\<Sum>f \<leftarrow> explode_fragments no_jitter 0 rock_a rock_b. frag_mass f) = 0
   \<and> \<bar>(\<Sum>f \<leftarrow> explode_fragments no_jitter 0 rock_a rock_b. frag_mass f) - 200\<bar> \<le> 3"
proof -
  have a: "\<forall>i. no_jitter i = 1 / 2" by (simp add: no_jitter_def)
  have b: "1 \<le> mass rock_a + mass rock_b" by (simp add: rock_values)
  show ?thesis
    using explosion_balance [of rock_a rock_b no_jitter 0] a b
    by (simp add: rock_values rock_count)
qed

text \<open>
  With a draw that weakens the kick of the first of four fragments, the fragments of two
  resting bodies have a mean velocity of \<open>-0.6\<close> along the first axis.
\<close>

theorem explosion_momentum_counterexample:
  "(\<Sum>f \<leftarrow> explode_fragments uneven 0 rock_a rock_b. frag_mass f * frag_vx f)
       / (\<Sum>f \<leftarrow> explode_fragments uneven 0 rock_a rock_b. frag_mass f)
     \<noteq> (vx (velocity rock_a) * mass rock_a + vx (velocity rock_b) * mass rock_b)
         / (mass rock_a + mass rock_b)"
  by (simp add: fragment_mean_velocity rock_count uneven_kick_sum rock_values)

subsection \<open>A body that explodes twice in one pass\<close>

lemma planet_overlaps:
  "overlapping planet_a planet_b" "overlapping (planet_a\<lparr>merged := True\<rparr>) planet_c"
  by (simp_all add: overlapping_def planet_a_def planet_b_def planet_c_def CelestialBody_def)

lemma planet_flags: "\<not> merged planet_a" "\<not> merged planet_b" "\<not> merged planet_c"
  by (simp_all add: planet_a_def planet_b_def planet_c_def CelestialBody_def)

lemma planet_count_c: "fragment_count (planet_a\<lparr>merged := True\<rparr>) planet_c = 5"
  by (simp add: fragment_count_def planet_a_def planet_c_def CelestialBody_def Math_round_def)

lemma upt_3: "[0..<3] = [0, 1, 2]" "[Suc 0..<3] = [1, 2]" "[Suc 1..<3] = [2]" "[Suc 2..<3] = []"
  by (simp_all add: upt_rec)

text \<open>
  Claim C2 fails on the code under the explode policy.  With three mutually overlapping
  planets the pass explodes body 0 with body 1, flags both, and then pairs the flagged
  body 0 with body 2 and explodes it a second time: the inner loop tests the flag of its
  second body only.  The pass emits ten fragments, five of them from the second explosion
  of body 0.
\<close>

theorem explode_twice:
  "fragments (handleCollisions no_jitter True (scene [planet_a, planet_b, planet_c] None))
     = explode_fragments no_jitter 0 planet_a planet_b
       @ explode_fragments no_jitter 10 (planet_a\<lparr>merged := True\<rparr>) planet_c
   \<and> length (fragments (handleCollisions no_jitter True
                 (scene [planet_a, planet_b, planet_c] None))) = 10"
  by (simp add: handleCollisions_def absorb_all_def scene_def collide_row_def collide_pair_def
      upt_3 planet_flags planet_overlaps explode_def planet_count Let_def
      length_explode_fragments planet_count_c)

subsection \<open>Absorption by the star\<close>

text \<open>
  Claim C8.  In a collision pass with a star present, every body whose Euclidean distance to
  the star (at the start of the pass) is below \<open>r_star + 0.5 * r_body\<close> ends the pass
  flagged \<open>merged\<close>, under the merge policy and under the explode policy alike; the
  pass leaves the star as it was.
\<close>

theorem star_absorption:
  "star (handleCollisions rnd expl h) = star h
   \<and> (\<forall>st. star h = Some st \<longrightarrow>
        (\<forall>i < length (bodies h).
           sqrt ((pos_x (position (bodies h ! i)) - pos_x (star_position st))
                   * (pos_x (position (bodies h ! i)) - pos_x (star_position st))
               + (pos_y (position (bodies h ! i)) - pos_y (star_position st))
                   * (pos_y (position (bodies h ! i)) - pos_y (star_position st)))
             < star_radius st + radius (bodies h ! i) * 0.5
           \<longrightarrow> merged (bodies (handleCollisions rnd expl h) ! i)))"
proof (intro conjI allI impI)
  show "star (handleCollisions rnd expl h) = star h"
    by (rule handleCollisions_star)
next
  fix st i
  assume st: "star h = Some st" and i: "i < length (bodies h)"
    and near: "sqrt ((pos_x (position (bodies h ! i)) - pos_x (star_position st))
                   * (pos_x (position (bodies h ! i)) - pos_x (star_position st))
               + (pos_y (position (bodies h ! i)) - pos_y (star_position st))
                   * (pos_y (position (bodies h ! i)) - pos_y (star_position st)))
             < star_radius st + radius (bodies h ! i) * 0.5"
  let ?h1 = "absorb_all h"
  have "merged (absorb st (bodies h ! i))"
    using near by (simp add: absorb_def Let_def)
  then have 1: "merged (bodies ?h1 ! i)"
    using st i by (simp add: absorb_all_def)
  have len: "length (bodies ?h1) = length (bodies h)"
    by (simp add: absorb_all_def split: option.splits)
  have "list_all2 (\<lambda>b b'. merged b \<longrightarrow> merged b') (bodies ?h1)
      (bodies (fold (collide_row rnd expl) [0..<length (bodies ?h1)] ?h1))"
  proof (rule fold_rel)
    show "list_all2 (\<lambda>b b'. merged b \<longrightarrow> merged b') (bodies g) (bodies (collide_row rnd expl x g))"
      for x g
      by (rule collide_row_rel) (simp_all add: merge_into_frame)
  qed simp_all
  then have "merged (bodies (fold (collide_row rnd expl) [0..<length (bodies ?h1)] ?h1) ! i)"
    using 1 i len by (simp add: list_all2_conv_all_nth)
  then show "merged (bodies (handleCollisions rnd expl h) ! i)"
    by (simp add: handleCollisions_def Let_def)
qed

theorem star_absorption_witness:
  "star (handleCollisions no_jitter True (scene [sun_grazer] (Some (Star 0 0)))) = Some (Star 0 0)
   \<and> sqrt ((33 - 0) * (33 - 0) + (0 - 0) * (0 - 0)) < (30::real) + 8 * 0.5
   \<and> merged (bodies (handleCollisions no_jitter True (scene [sun_grazer] (Some (Star 0 0)))) ! 0)
   \<and> merged (bodies (handleCollisions no_jitter False (scene [sun_grazer] (Some (Star 0 0)))) ! 0)"
  using star_absorption [of no_jitter True "scene [sun_grazer] (Some (Star 0 0))"]
    star_absorption [of no_jitter False "scene [sun_grazer] (Some (Star 0 0))"]
  by (simp add: scene_def sun_grazer_def CelestialBody_def Star_def)

subsection \<open>The circular-orbit query\<close>

text \<open>
  Claim C10.  \<open>circularOrbitVelocity\<close> is total and never divides by zero: with
  \<open>r\<close> the Euclidean distance from \<open>(x, y)\<close> to the star's position, it returns
  \<open>0\<close> when \<open>r < 1\<close>, and otherwise the square root \<open>sqrt (G * starMass / r)\<close> with
  \<open>G = 2\<close>; for a negative star mass that square root is the one of a negative number
  (\<open>NaN\<close>).  The division is never one by zero.
\<close>

theorem circularOrbitVelocity_guarded:
  "circularOrbitVelocity px py sp m =
     (if sqrt ((px - pos_x sp) * (px - pos_x sp) + (py - pos_y sp) * (py - pos_y sp)) < 1
      then Inr 0
      else if m < 0 then Inl NegativeSqrt
      else Inr (sqrt
             (2 * m / sqrt ((px - pos_x sp) * (px - pos_x sp) + (py - pos_y sp) * (py - pos_y sp)))))
   \<and> circularOrbitVelocity px py sp m \<noteq> Inl DivisionByZero"
proof -
  define r where "r = sqrt ((px - pos_x sp) * (px - pos_x sp) + (py - pos_y sp) * (py - pos_y sp))"
  have cov: "circularOrbitVelocity px py sp m =
      (if r < 1 then Inr 0
       else (case checked_div (G * m) r of Inl e \<Rightarrow> Inl e | Inr q \<Rightarrow> Math_sqrt q))"
    unfolding r_def circularOrbitVelocity_def Let_def ..
  have val: "circularOrbitVelocity px py sp m =
      (if r < 1 then Inr 0 else if m < 0 then Inl NegativeSqrt else Inr (sqrt (2 * m / r)))"
  proof (cases "r < 1")
    case True
    then show ?thesis by (simp add: cov)
  next
    case False
    then have r: "1 \<le> r" "r \<noteq> 0" "0 < r" by simp_all
    show ?thesis
    proof (cases "m < 0")
      case True
      then have "2 * m / r < 0" using r(3) by (simp add: divide_neg_pos)
      then show ?thesis
        using False True r(2) by (simp add: cov checked_div_def Math_sqrt_def G_def)
    next
      case nonneg: False
      then have "\<not> 2 * m / r < 0" using r(3) by (simp add: not_less)
      then show ?thesis
        using False nonneg r(2) by (simp add: cov checked_div_def Math_sqrt_def G_def)
    qed
  qed
  have "circularOrbitVelocity px py sp m \<noteq> Inl DivisionByZero"
    unfolding val by simp
  then show ?thesis
    using val unfolding r_def by simp
qed

end
